theory Spec2Isabelle
  imports Main
begin

section \<open>The decoded document\<close>

text \<open>
  \<^verbatim>\<open>Parse\<close> hands the bytes to the YAML decoder and works on the tree it returns, a Go
  value of type \<^verbatim>\<open>any\<close>. The tree is the input of the model: a string-keyed mapping
  (\<^verbatim>\<open>map[string]any\<close>), a sequence (\<^verbatim>\<open>[]any\<close>), a string, an \<^verbatim>\<open>int\<close>, null, a bool, or
  any other payload (a float, a mapping with a non-string key, ...), which the parser can
  only pass on as a parameter value.

  A Go map has no duplicate keys and \<^verbatim>\<open>range\<close> visits its entries in an unspecified
  order. A mapping is an association list here: lookup is \<open>map_of\<close>, \<^verbatim>\<open>len\<close> is
  \<open>length\<close>, and the order of the list is the order in which one run of the program
  visits the entries. Another run of the program on the same document is the same tree
  with the entries of its mappings permuted.
\<close>

datatype yaml =
    YNull
  | YBool bool
  | YInt int
  | YString string
  | YOther string
  | YSeq "yaml list"
  | YMap "(string \<times> yaml) list"

type_synonym ymap = "(string \<times> yaml) list"

section \<open>Errors\<close>

text \<open>
  The three error values of the package, with the text that \<^verbatim>\<open>errInvalidInputReason\<close> and
  \<^verbatim>\<open>errUnknownDefinitionWithName\<close> wrap into them. A failed type assertion
  \<^verbatim>\<open>v.(string)\<close> without the \<^verbatim>\<open>ok\<close> result is a run-time panic, not an error value:
  it is the fourth outcome.
\<close>

datatype error =
    InvalidInput string
  | ObjectMustHaveSingleKey
  | UnknownDefinition string string
  | Panic

definition errInvalidInputReason :: "string \<Rightarrow> error" where
  "errInvalidInputReason reason = InvalidInput reason"

definition errObjectMustHaveSingleKey :: error where
  "errObjectMustHaveSingleKey = ObjectMustHaveSingleKey"

definition errUnknownDefinitionWithName :: "string \<Rightarrow> string \<Rightarrow> error" where
  "errUnknownDefinitionWithName grp ref = UnknownDefinition grp ref"

section \<open>The typed tree\<close>

record Step =
  Operation :: string
  Parameters :: ymap

record Check =
  Name :: string
  Parameters :: ymap

record Filter =
  Source :: string
  Target :: string
  Steps :: "Step list"

datatype Condition =
  Condition (Any: "Condition list") (All: "Condition list") (Source: string)
    (Checks: "Check list")

text \<open>A nil map reads as the empty map; a nil slice is the empty list.\<close>

record Response =
  Status :: int
  Format :: string
  Headers :: "string \<rightharpoonup> string list"
  Body :: string

datatype Endpoint =
  Endpoint (Description: string) (Host: string) (Method: string) (Path: string)
    (BodyFormat: string) (Filters: "Filter list") (Conditions: "Condition list")
    (Endpoints: "Endpoint list") (Response: "Response option")

record Definitions =
  Steps :: "string \<rightharpoonup> Step list"
  Filters :: "string \<rightharpoonup> Filter list"
  Conditions :: "string \<rightharpoonup> Condition list"
  Responses :: "string \<rightharpoonup> Response"

record Spec =
  Definitions :: Definitions
  Endpoints :: "Endpoint list"

text \<open>The zero values \<^verbatim>\<open>Filter{}\<close>, \<^verbatim>\<open>Condition{}\<close>, \<^verbatim>\<open>var response Response\<close>,
  \<^verbatim>\<open>var endpoint Endpoint\<close>.\<close>

definition zeroFilter :: Filter where
  "zeroFilter = \<lparr>Filter.Source = '''', Target = '''', Filter.Steps = []\<rparr>"

definition zeroCondition :: Condition where
  "zeroCondition = Condition [] [] '''' []"

definition zeroResponse :: Response where
  "zeroResponse = \<lparr>Status = 0, Format = '''', Headers = Map.empty, Body = ''''\<rparr>"

definition zeroEndpoint :: Endpoint where
  "zeroEndpoint = Endpoint '''' '''' '''' '''' '''' [] [] [] None"

definition createEmpty :: Spec where
  "createEmpty =
     \<lparr>Definitions = \<lparr>Steps = Map.empty, Filters = Map.empty, Conditions = Map.empty,
                      Responses = Map.empty\<rparr>,
      Endpoints = []\<rparr>"

section \<open>Structural extraction\<close>

text \<open>
  \<^verbatim>\<open>extractString\<close> returns \<^verbatim>\<open>(str, ok, err)\<close>: \<open>Inl err\<close>, or \<open>Inr None\<close> when the key is
  absent, or \<open>Inr (Some str)\<close>. \<^verbatim>\<open>extractStringMap\<close> and \<^verbatim>\<open>extractSliceOfAny\<close> return a
  nil map or slice when the key is absent (\<open>None\<close>); what the decoder built is never nil,
  also when it is empty.
\<close>

text \<open>The \<^verbatim>\<open>'%s'\<close> of the error messages.\<close>

definition quoted :: "string \<Rightarrow> string" where
  "quoted name = CHR 0x27 # name @ [CHR 0x27]"

definition extractString :: "ymap \<Rightarrow> string \<Rightarrow> error + string option" where
  "extractString input name =
     (case map_of input name of
        None \<Rightarrow> Inr None
      | Some (YString str) \<Rightarrow> Inr (Some str)
      | Some _ \<Rightarrow>
          Inl (errInvalidInputReason (''expected '' @ quoted name @ '' to be a string'')))"

definition extractInt :: "ymap \<Rightarrow> string \<Rightarrow> error + int option" where
  "extractInt input name =
     (case map_of input name of
        None \<Rightarrow> Inr None
      | Some (YInt i) \<Rightarrow> Inr (Some i)
      | Some _ \<Rightarrow>
          Inl (errInvalidInputReason (''expect '' @ quoted name @ '' to be an integer'')))"

text \<open>The target pointer of \<^verbatim>\<open>fillString\<close> is the update function of the field it
  points to.\<close>

definition fillString :: "(string \<Rightarrow> 'r \<Rightarrow> 'r) \<Rightarrow> ymap \<Rightarrow> string \<Rightarrow> 'r \<Rightarrow> error + 'r" where
  "fillString target input name r =
     (case extractString input name of
        Inl err \<Rightarrow> Inl err
      | Inr None \<Rightarrow> Inr r
      | Inr (Some v) \<Rightarrow> Inr (target v r))"

text \<open>\<^verbatim>\<open>fillStrings\<close> ranges over the map of targets, a map literal at every call: the
  model visits the targets in the order of the literal.\<close>

fun fillStrings :: "(string \<times> (string \<Rightarrow> 'r \<Rightarrow> 'r)) list \<Rightarrow> ymap \<Rightarrow> 'r \<Rightarrow> error + 'r" where
  "fillStrings [] input r = Inr r"
| "fillStrings ((name, target) # targets) input r =
     (case fillString target input name r of
        Inl err \<Rightarrow> Inl err
      | Inr r' \<Rightarrow> fillStrings targets input r')"

definition fillInt :: "(int \<Rightarrow> 'r \<Rightarrow> 'r) \<Rightarrow> ymap \<Rightarrow> string \<Rightarrow> 'r \<Rightarrow> error + 'r" where
  "fillInt target input name r =
     (case extractInt input name of
        Inl err \<Rightarrow> Inl err
      | Inr None \<Rightarrow> Inr r
      | Inr (Some v) \<Rightarrow> Inr (target v r))"

definition extractStringMap :: "ymap \<Rightarrow> string \<Rightarrow> error + ymap option" where
  "extractStringMap input name =
     (case map_of input name of
        None \<Rightarrow> Inr None
      | Some (YMap outputMap) \<Rightarrow> Inr (Some outputMap)
      | Some _ \<Rightarrow>
          Inl (errInvalidInputReason (''expected '' @ quoted name @ '' to be an object'')))"

definition extractSliceOfAny :: "ymap \<Rightarrow> string \<Rightarrow> error + yaml list option" where
  "extractSliceOfAny input name =
     (case map_of input name of
        None \<Rightarrow> Inr None
      | Some (YSeq outputSlice) \<Rightarrow> Inr (Some outputSlice)
      | Some _ \<Rightarrow>
          Inl (errInvalidInputReason (''expected '' @ quoted name @ '' to be an array'')))"

section \<open>The registry\<close>

definition getStepsByReference :: "Definitions \<Rightarrow> string \<Rightarrow> error + Step list" where
  "getStepsByReference definitions refName =
     (case Definitions.Steps definitions refName of
        None \<Rightarrow> Inl (errUnknownDefinitionWithName ''steps'' refName)
      | Some steps \<Rightarrow> Inr steps)"

definition getFiltersByReference :: "Definitions \<Rightarrow> string \<Rightarrow> error + Filter list" where
  "getFiltersByReference definitions refName =
     (case Definitions.Filters definitions refName of
        None \<Rightarrow> Inl (errUnknownDefinitionWithName ''filters'' refName)
      | Some filters \<Rightarrow> Inr filters)"

definition getConditionsByReference :: "Definitions \<Rightarrow> string \<Rightarrow> error + Condition list" where
  "getConditionsByReference definitions refName =
     (case Definitions.Conditions definitions refName of
        None \<Rightarrow> Inl (errUnknownDefinitionWithName ''conditions'' refName)
      | Some conditions \<Rightarrow> Inr conditions)"

definition getResponseByReference :: "Definitions \<Rightarrow> string \<Rightarrow> error + Response" where
  "getResponseByReference definitions refName =
     (case Definitions.Responses definitions refName of
        None \<Rightarrow> Inl (errUnknownDefinitionWithName ''responses'' refName)
      | Some response \<Rightarrow> Inr response)"

section \<open>Steps and checks\<close>

text \<open>The type switch on the value of a step or check item: a mapping is the parameters,
  anything else is wrapped under the key \<^verbatim>\<open>value\<close>.\<close>

fun wrapParameters :: "yaml \<Rightarrow> ymap" where
  "wrapParameters (YMap m) = m"
| "wrapParameters v = [(''value'', v)]"

definition createSteps :: "ymap \<Rightarrow> Definitions \<Rightarrow> error + Step list" where
  "createSteps rStepItem definitions =
     (if length rStepItem > 1 then Inl errObjectMustHaveSingleKey
      else case extractString rStepItem ''$ref'' of
        Inl err \<Rightarrow> Inl err
      | Inr (Some refName) \<Rightarrow> getStepsByReference definitions refName
      | Inr None \<Rightarrow>
          Inr (map (\<lambda>(rStepOperation, rStepParams).
                 \<lparr>Operation = rStepOperation,
                  Step.Parameters = wrapParameters rStepParams\<rparr>) rStepItem))"

definition fillStepsItem :: "Step list \<Rightarrow> ymap \<Rightarrow> Definitions \<Rightarrow> error + Step list" where
  "fillStepsItem steps rStepItem definitions =
     (case createSteps rStepItem definitions of
        Inl err \<Rightarrow> Inl err
      | Inr newSteps \<Rightarrow> Inr (steps @ newSteps))"

fun fillStepsItemsLoop :: "Step list \<Rightarrow> yaml list \<Rightarrow> Definitions \<Rightarrow> error + Step list" where
  "fillStepsItemsLoop steps [] definitions = Inr steps"
| "fillStepsItemsLoop steps (YMap rStepItemMap # rStepItems) definitions =
     (case fillStepsItem steps rStepItemMap definitions of
        Inl err \<Rightarrow> Inl err
      | Inr steps' \<Rightarrow> fillStepsItemsLoop steps' rStepItems definitions)"
| "fillStepsItemsLoop steps (_ # rStepItems) definitions =
     Inl (errInvalidInputReason ''each step item must be an object'')"

definition fillStepsItems :: "Step list \<Rightarrow> yaml list \<Rightarrow> Definitions \<Rightarrow> error + Step list" where
  "fillStepsItems steps rStepItems definitions =
     (if length rStepItems = 0
      then Inl (errInvalidInputReason ''each step must have at least one item'')
      else fillStepsItemsLoop steps rStepItems definitions)"

text \<open>\<^verbatim>\<open>stepsMap\<close> points to \<^verbatim>\<open>definitions.Steps\<close>: the store is an update of the
  registry, seen by the lookups of the later entries.\<close>

fun fillStepsMap :: "ymap \<Rightarrow> Definitions \<Rightarrow> error + Definitions" where
  "fillStepsMap [] definitions = Inr definitions"
| "fillStepsMap ((stepName, YSeq rStepItemsSlice) # rSteps) definitions =
     (case fillStepsItems [] rStepItemsSlice definitions of
        Inl err \<Rightarrow> Inl err
      | Inr stepsList \<Rightarrow>
          fillStepsMap rSteps
            (definitions\<lparr>Steps := (Definitions.Steps definitions)(stepName \<mapsto> stepsList)\<rparr>))"
| "fillStepsMap ((stepName, _) # rSteps) definitions =
     Inl (errInvalidInputReason
            (''each step must be an array if step items ('' @ stepName @ '' is not)''))"

fun createChecksLoop :: "Check list \<Rightarrow> yaml list \<Rightarrow> error + Check list" where
  "createChecksLoop checks [] = Inr checks"
| "createChecksLoop checks (YMap rCheckMap # rChecks) =
     (if length rCheckMap \<noteq> 1 then Inl errObjectMustHaveSingleKey
      else createChecksLoop
             (checks @ map (\<lambda>(rCheckName, rCheckParams).
                        \<lparr>Name = rCheckName,
                         Check.Parameters = wrapParameters rCheckParams\<rparr>) rCheckMap)
             rChecks)"
| "createChecksLoop checks (_ # rChecks) =
     Inl (errInvalidInputReason ''each check item must be an object'')"

definition createChecks :: "yaml list \<Rightarrow> error + Check list" where
  "createChecks rChecks = createChecksLoop [] rChecks"

section \<open>Filters\<close>

fun createFiltersStepsLoop :: "Filter \<Rightarrow> yaml list \<Rightarrow> Definitions \<Rightarrow> error + Filter" where
  "createFiltersStepsLoop fltr [] definitions = Inr fltr"
| "createFiltersStepsLoop fltr (YMap rStepMap # rSteps) definitions =
     (case createSteps rStepMap definitions of
        Inl err \<Rightarrow> Inl err
      | Inr steps \<Rightarrow>
          createFiltersStepsLoop (fltr\<lparr>Filter.Steps := Filter.Steps fltr @ steps\<rparr>)
            rSteps definitions)"
| "createFiltersStepsLoop fltr (_ # rSteps) definitions =
     Inl (errInvalidInputReason ''each step item must be an object'')"

definition createFilters :: "Definitions \<Rightarrow> ymap \<Rightarrow> error + Filter list" where
  "createFilters definitions rFilterItem =
     (case extractString rFilterItem ''$ref'' of
        Inl err \<Rightarrow> Inl err
      | Inr (Some refName) \<Rightarrow> getFiltersByReference definitions refName
      | Inr None \<Rightarrow>
         (case fillStrings
                 [(''source'', \<lambda>v f. f\<lparr>Filter.Source := v\<rparr>),
                  (''target'', \<lambda>v f. f\<lparr>Target := v\<rparr>)] rFilterItem zeroFilter of
            Inl err \<Rightarrow> Inl err
          | Inr fltr \<Rightarrow>
              if Filter.Source fltr = []
              then Inl (errInvalidInputReason ''filter must have a source'')
              else (case extractSliceOfAny rFilterItem ''steps'' of
                      Inl err \<Rightarrow> Inl err
                    | Inr None \<Rightarrow> Inr [fltr]
                    | Inr (Some rSteps) \<Rightarrow>
                        (case createFiltersStepsLoop fltr rSteps definitions of
                           Inl err \<Rightarrow> Inl err
                         | Inr fltr' \<Rightarrow> Inr [fltr']))))"

definition fillFiltersItem :: "Filter list \<Rightarrow> ymap \<Rightarrow> Definitions \<Rightarrow> error + Filter list" where
  "fillFiltersItem filters rFilterItem definitions =
     (case createFilters definitions rFilterItem of
        Inl err \<Rightarrow> Inl err
      | Inr newFilters \<Rightarrow> Inr (filters @ newFilters))"

fun fillFiltersItemsLoop :: "Filter list \<Rightarrow> yaml list \<Rightarrow> Definitions \<Rightarrow> error + Filter list" where
  "fillFiltersItemsLoop filters [] definitions = Inr filters"
| "fillFiltersItemsLoop filters (YMap rFilterItemMap # rFilterItems) definitions =
     (case fillFiltersItem filters rFilterItemMap definitions of
        Inl err \<Rightarrow> Inl err
      | Inr filters' \<Rightarrow> fillFiltersItemsLoop filters' rFilterItems definitions)"
| "fillFiltersItemsLoop filters (_ # rFilterItems) definitions =
     Inl (errInvalidInputReason ''each filter item must be an object'')"

definition fillFiltersItems :: "Filter list \<Rightarrow> yaml list \<Rightarrow> Definitions \<Rightarrow> error + Filter list" where
  "fillFiltersItems filters rFilterItems definitions =
     (if length rFilterItems = 0
      then Inl (errInvalidInputReason ''each filter must have at least one item'')
      else fillFiltersItemsLoop filters rFilterItems definitions)"

fun fillFiltersMap :: "ymap \<Rightarrow> Definitions \<Rightarrow> error + Definitions" where
  "fillFiltersMap [] definitions = Inr definitions"
| "fillFiltersMap ((filterName, YSeq rFilterItemsSlice) # rFilters) definitions =
     (case fillFiltersItems [] rFilterItemsSlice definitions of
        Inl err \<Rightarrow> Inl err
      | Inr filtersList \<Rightarrow>
          fillFiltersMap rFilters
            (definitions\<lparr>Filters :=
               (Definitions.Filters definitions)(filterName \<mapsto> filtersList)\<rparr>))"
| "fillFiltersMap ((filterName, _) # rFilters) definitions =
     Inl (errInvalidInputReason
            (''each filter must be an array of filter items ('' @ filterName @ '' is not)''))"

section \<open>Responses\<close>

text \<open>
  The loops over the headers fill the local map \<^verbatim>\<open>headers\<close>.
  \<^verbatim>\<open>headerValue.(string)\<close> has no \<^verbatim>\<open>ok\<close> result: on a value that is no string it panics.
\<close>

fun headerValuesLoop ::
  "(string \<rightharpoonup> string list) \<Rightarrow> string \<Rightarrow> yaml list \<Rightarrow> error + (string \<rightharpoonup> string list)" where
  "headerValuesLoop headers headerName [] = Inr headers"
| "headerValuesLoop headers headerName (YString headerValue # headerValuesSlice) =
     headerValuesLoop
       (headers(headerName \<mapsto>
          (case headers headerName of None \<Rightarrow> [] | Some vs \<Rightarrow> vs) @ [headerValue]))
       headerName headerValuesSlice"
| "headerValuesLoop headers headerName (_ # headerValuesSlice) = Inl Panic"

fun headersLoop :: "(string \<rightharpoonup> string list) \<Rightarrow> ymap \<Rightarrow> error + (string \<rightharpoonup> string list)" where
  "headersLoop headers [] = Inr headers"
| "headersLoop headers ((headerName, YSeq headerValuesSlice) # rHeaders) =
     (case headerValuesLoop (headers(headerName \<mapsto> [])) headerName headerValuesSlice of
        Inl err \<Rightarrow> Inl err
      | Inr headers' \<Rightarrow> headersLoop headers' rHeaders)"
| "headersLoop headers ((headerName, _) # rHeaders) =
     Inl (errInvalidInputReason ''each header values must be an array of strings'')"

text \<open>\<^verbatim>\<open>createResponse\<close> returns \<^verbatim>\<open>&response\<close>; the map \<^verbatim>\<open>headers\<close> is a local variable of
  the block that builds it, and no statement stores it in \<^verbatim>\<open>response.Headers\<close>.\<close>

definition createResponse :: "ymap \<Rightarrow> Definitions \<Rightarrow> error + Response" where
  "createResponse rResponse definitions =
     (case extractString rResponse ''$ref'' of
        Inl err \<Rightarrow> Inl err
      | Inr (Some refName) \<Rightarrow> getResponseByReference definitions refName
      | Inr None \<Rightarrow>
         (case fillStrings
                 [(''format'', \<lambda>v r. r\<lparr>Format := v\<rparr>),
                  (''body'', \<lambda>v r. r\<lparr>Body := v\<rparr>)] rResponse zeroResponse of
            Inl err \<Rightarrow> Inl err
          | Inr response \<Rightarrow>
             (case fillInt (\<lambda>v r. r\<lparr>Status := v\<rparr>) rResponse ''status'' response of
                Inl err \<Rightarrow> Inl err
              | Inr response' \<Rightarrow>
                 (case extractStringMap rResponse ''headers'' of
                    Inl err \<Rightarrow> Inl err
                  | Inr None \<Rightarrow> Inr response'
                  | Inr (Some rHeaders) \<Rightarrow>
                     (case headersLoop Map.empty rHeaders of
                        Inl err \<Rightarrow> Inl err
                      | Inr headers \<Rightarrow> Inr response')))))"

text \<open>\<^verbatim>\<open>*response = *newResponse\<close> overwrites the target.\<close>

definition fillResponseItem :: "Response \<Rightarrow> ymap \<Rightarrow> Definitions \<Rightarrow> error + Response" where
  "fillResponseItem response rResponse definitions =
     (case createResponse rResponse definitions of
        Inl err \<Rightarrow> Inl err
      | Inr newResponse \<Rightarrow> Inr newResponse)"

fun fillResponsesMap :: "ymap \<Rightarrow> Definitions \<Rightarrow> error + Definitions" where
  "fillResponsesMap [] definitions = Inr definitions"
| "fillResponsesMap ((responseName, YMap rResponseMap) # rResponses) definitions =
     (case fillResponseItem zeroResponse rResponseMap definitions of
        Inl err \<Rightarrow> Inl err
      | Inr response \<Rightarrow>
          fillResponsesMap rResponses
            (definitions\<lparr>Responses :=
               (Definitions.Responses definitions)(responseName \<mapsto> response)\<rparr>))"
| "fillResponsesMap ((responseName, _) # rResponses) definitions =
     Inl (errInvalidInputReason ''each response must be an object'')"

section \<open>Conditions\<close>

text \<open>The fields of a \<^verbatim>\<open>Condition\<close>, as targets of an assignment.\<close>

fun setAny :: "Condition list \<Rightarrow> Condition \<Rightarrow> Condition" where
  "setAny v (Condition any all source checks) = Condition v all source checks"

fun setAll :: "Condition list \<Rightarrow> Condition \<Rightarrow> Condition" where
  "setAll v (Condition any all source checks) = Condition any v source checks"

fun setSource :: "string \<Rightarrow> Condition \<Rightarrow> Condition" where
  "setSource v (Condition any all source checks) = Condition any all v checks"

fun setChecks :: "Check list \<Rightarrow> Condition \<Rightarrow> Condition" where
  "setChecks v (Condition any all source checks) = Condition any all source v"

function
  createConditions :: "Definitions \<Rightarrow> ymap \<Rightarrow> error + Condition list" and
  fillConditionsItems :: "Condition list \<Rightarrow> yaml list \<Rightarrow> Definitions \<Rightarrow> error + Condition list" and
  fillConditionsItemsLoop :: "Condition list \<Rightarrow> yaml list \<Rightarrow> Definitions \<Rightarrow> error + Condition list" and
  fillConditionsItem :: "Condition list \<Rightarrow> ymap \<Rightarrow> Definitions \<Rightarrow> error + Condition list"
where
  "createConditions definitions rConditionItem =
     (case extractString rConditionItem ''$ref'' of
        Inl err \<Rightarrow> Inl err
      | Inr (Some refName) \<Rightarrow> getConditionsByReference definitions refName
      | Inr None \<Rightarrow>
         (case extractSliceOfAny rConditionItem ''any'' of
            Inl err \<Rightarrow> Inl err
          | Inr (Some sliceAny) \<Rightarrow>
             (case fillConditionsItems (Any zeroCondition) sliceAny definitions of
                Inl err \<Rightarrow> Inl err
              | Inr conditions \<Rightarrow> Inr [setAny conditions zeroCondition])
          | Inr None \<Rightarrow>
             (case extractSliceOfAny rConditionItem ''all'' of
                Inl err \<Rightarrow> Inl err
              | Inr (Some sliceAll) \<Rightarrow>
                 (case fillConditionsItems (All zeroCondition) sliceAll definitions of
                    Inl err \<Rightarrow> Inl err
                  | Inr conditions \<Rightarrow> Inr [setAll conditions zeroCondition])
              | Inr None \<Rightarrow>
                 (case fillString setSource rConditionItem ''source'' zeroCondition of
                    Inl err \<Rightarrow> Inl err
                  | Inr condition \<Rightarrow>
                      if Condition.Source condition = []
                      then Inl (errInvalidInputReason ''condition must have a source'')
                      else (case extractSliceOfAny rConditionItem ''checks'' of
                              Inl err \<Rightarrow> Inl err
                            | Inr None \<Rightarrow> Inl (errInvalidInputReason ''checks must be an array'')
                            | Inr (Some rChecks) \<Rightarrow>
                               (case createChecks rChecks of
                                  Inl err \<Rightarrow> Inl err
                                | Inr checks \<Rightarrow> Inr [setChecks checks condition]))))))"
| "fillConditionsItems conditions rConditionItems definitions =
     (if length rConditionItems = 0
      then Inl (errInvalidInputReason ''each condition must have at least one item'')
      else fillConditionsItemsLoop conditions rConditionItems definitions)"
| "fillConditionsItemsLoop conditions [] definitions = Inr conditions"
| "fillConditionsItemsLoop conditions (rConditionItem # rConditionItems) definitions =
     (case rConditionItem of
        YMap rConditionItemMap \<Rightarrow>
          (case fillConditionsItem conditions rConditionItemMap definitions of
             Inl err \<Rightarrow> Inl err
           | Inr conditions' \<Rightarrow> fillConditionsItemsLoop conditions' rConditionItems definitions)
      | _ \<Rightarrow> Inl (errInvalidInputReason ''each condition item must be an object''))"
| "fillConditionsItem conditions rConditionItem definitions =
     (case createConditions definitions rConditionItem of
        Inl err \<Rightarrow> Inl err
      | Inr newConditions \<Rightarrow> Inr (conditions @ newConditions))"
  by pat_completeness auto
text \<open>A sequence found under a key of a mapping is smaller than the mapping: the
  recursion of the builders through the tree ends.\<close>

termination
proof -
  have value_size: "size v < size (YMap m)" if "map_of m k = Some v" for m k v
    using that by (induction m) (auto split: if_splits)
  have slice_size: "size_list size xs < size_list (size_prod (\<lambda>x. 0) size) m"
    if "extractSliceOfAny m k = Inr (Some xs)" for m k xs
    using that value_size [of m k "YSeq xs"]
    by (auto simp: extractSliceOfAny_def split: option.splits yaml.splits)
  show ?thesis
    by (relation "measure (\<lambda>x. case x of
          Inl (Inl (d, m)) \<Rightarrow> 2 * size (YMap m)
        | Inl (Inr (c, xs, d)) \<Rightarrow> 2 * size (YSeq xs) + 1
        | Inr (Inl (c, xs, d)) \<Rightarrow> 2 * size (YSeq xs)
        | Inr (Inr (c, m, d)) \<Rightarrow> 2 * size (YMap m) + 1)")
      (auto dest: slice_size)
qed


fun fillConditionsMap :: "ymap \<Rightarrow> Definitions \<Rightarrow> error + Definitions" where
  "fillConditionsMap [] definitions = Inr definitions"
| "fillConditionsMap ((conditionName, YSeq rConditionItemsSlice) # rConditions) definitions =
     (case fillConditionsItems [] rConditionItemsSlice definitions of
        Inl err \<Rightarrow> Inl err
      | Inr conditionsList \<Rightarrow>
          fillConditionsMap rConditions
            (definitions\<lparr>Conditions :=
               (Definitions.Conditions definitions)(conditionName \<mapsto> conditionsList)\<rparr>))"
| "fillConditionsMap ((conditionName, _) # rConditions) definitions =
     Inl (errInvalidInputReason
            (''each condition must be an array of condition items ('' @ conditionName
               @ '' is not)''))"

section \<open>Endpoints\<close>

text \<open>The fields of an \<^verbatim>\<open>Endpoint\<close>, as targets of an assignment.\<close>

fun setDescription :: "string \<Rightarrow> Endpoint \<Rightarrow> Endpoint" where
  "setDescription v (Endpoint d h m p b fs cs es r) = Endpoint v h m p b fs cs es r"

fun setHost :: "string \<Rightarrow> Endpoint \<Rightarrow> Endpoint" where
  "setHost v (Endpoint d h m p b fs cs es r) = Endpoint d v m p b fs cs es r"

fun setMethod :: "string \<Rightarrow> Endpoint \<Rightarrow> Endpoint" where
  "setMethod v (Endpoint d h m p b fs cs es r) = Endpoint d h v p b fs cs es r"

fun setPath :: "string \<Rightarrow> Endpoint \<Rightarrow> Endpoint" where
  "setPath v (Endpoint d h m p b fs cs es r) = Endpoint d h m v b fs cs es r"

fun setBodyFormat :: "string \<Rightarrow> Endpoint \<Rightarrow> Endpoint" where
  "setBodyFormat v (Endpoint d h m p b fs cs es r) = Endpoint d h m p v fs cs es r"

fun setFilters :: "Filter list \<Rightarrow> Endpoint \<Rightarrow> Endpoint" where
  "setFilters v (Endpoint d h m p b fs cs es r) = Endpoint d h m p b v cs es r"

fun setConditions :: "Condition list \<Rightarrow> Endpoint \<Rightarrow> Endpoint" where
  "setConditions v (Endpoint d h m p b fs cs es r) = Endpoint d h m p b fs v es r"

fun setEndpoints :: "Endpoint list \<Rightarrow> Endpoint \<Rightarrow> Endpoint" where
  "setEndpoints v (Endpoint d h m p b fs cs es r) = Endpoint d h m p b fs cs v r"

fun setResponse :: "Response option \<Rightarrow> Endpoint \<Rightarrow> Endpoint" where
  "setResponse v (Endpoint d h m p b fs cs es r) = Endpoint d h m p b fs cs es v"

function
  createEndpoint :: "ymap \<Rightarrow> Definitions \<Rightarrow> error + Endpoint" and
  fillEndpoints :: "Endpoint list \<Rightarrow> yaml list \<Rightarrow> Definitions \<Rightarrow> error + Endpoint list"
where
  "createEndpoint rEndpoint definitions =
     (case fillStrings
             [(''description'', setDescription),
              (''host'', setHost),
              (''method'', setMethod),
              (''path'', setPath),
              (''bodyFormat'', setBodyFormat)] rEndpoint zeroEndpoint of
        Inl err \<Rightarrow> Inl err
      | Inr endpoint1 \<Rightarrow>
     (case extractSliceOfAny rEndpoint ''filters'' of
        Inl err \<Rightarrow> Inl err
      | Inr rFilterItems \<Rightarrow>
     (case (case rFilterItems of
              None \<Rightarrow> Inr endpoint1
            | Some items \<Rightarrow>
               (case fillFiltersItems (Endpoint.Filters endpoint1) items definitions of
                  Inl err \<Rightarrow> Inl err
                | Inr filters \<Rightarrow> Inr (setFilters filters endpoint1))) of
        Inl err \<Rightarrow> Inl err
      | Inr endpoint2 \<Rightarrow>
     (case extractSliceOfAny rEndpoint ''conditions'' of
        Inl err \<Rightarrow> Inl err
      | Inr rConditionItems \<Rightarrow>
     (case (case rConditionItems of
              None \<Rightarrow> Inr endpoint2
            | Some items \<Rightarrow>
               (case fillConditionsItems (Endpoint.Conditions endpoint2) items definitions of
                  Inl err \<Rightarrow> Inl err
                | Inr conditions \<Rightarrow> Inr (setConditions conditions endpoint2))) of
        Inl err \<Rightarrow> Inl err
      | Inr endpoint3 \<Rightarrow>
     (case extractSliceOfAny rEndpoint ''endpoints'' of
        Inl err \<Rightarrow> Inl err
      | Inr rEndpointItems \<Rightarrow>
     (case (case rEndpointItems of
              None \<Rightarrow> Inr endpoint3
            | Some items \<Rightarrow>
               (case fillEndpoints (Endpoint.Endpoints endpoint3) items definitions of
                  Inl err \<Rightarrow> Inl err
                | Inr endpoints \<Rightarrow> Inr (setEndpoints endpoints endpoint3))) of
        Inl err \<Rightarrow> Inl err
      | Inr endpoint4 \<Rightarrow>
     (case extractStringMap rEndpoint ''response'' of
        Inl err \<Rightarrow> Inl err
      | Inr rResponse \<Rightarrow>
     (case (case rResponse of
              None \<Rightarrow> Inr endpoint4
            | Some rResponseMap \<Rightarrow>
               (case fillResponseItem zeroResponse rResponseMap definitions of
                  Inl err \<Rightarrow> Inl err
                | Inr response \<Rightarrow> Inr (setResponse (Some response) endpoint4))) of
        Inl err \<Rightarrow> Inl err
      | Inr endpoint \<Rightarrow>
          if length (Endpoint.Endpoints endpoint) = 0 \<and> Endpoint.Response endpoint = None
          then Inl (errInvalidInputReason
                      ''endpoint must have either sub-endpoints or a response'')
          else Inr endpoint)))))))))"
| "fillEndpoints endpoints [] definitions = Inr endpoints"
| "fillEndpoints endpoints (rEndpoint # rEndpoints) definitions =
     (case rEndpoint of
        YMap rEndpointMap \<Rightarrow>
          (case createEndpoint rEndpointMap definitions of
             Inl err \<Rightarrow> Inl err
           | Inr endpoint \<Rightarrow> fillEndpoints (endpoints @ [endpoint]) rEndpoints definitions)
      | _ \<Rightarrow> Inl (errInvalidInputReason ''each endpoint must be an object''))"
  by pat_completeness auto
termination
proof -
  have value_size: "size v < size (YMap m)" if "map_of m k = Some v" for m k v
    using that by (induction m) (auto split: if_splits)
  have slice_size: "size_list size xs < size_list (size_prod (\<lambda>x. 0) size) m"
    if "extractSliceOfAny m k = Inr (Some xs)" for m k xs
    using that value_size [of m k "YSeq xs"]
    by (auto simp: extractSliceOfAny_def split: option.splits yaml.splits)
  show ?thesis
    by (relation "measure (\<lambda>x. case x of
          Inl (m, d) \<Rightarrow> size (YMap m)
        | Inr (es, xs, d) \<Rightarrow> size (YSeq xs))")
      (auto dest: slice_size)
qed

section \<open>The assembler\<close>

definition fillDefinitions :: "ymap \<Rightarrow> Definitions \<Rightarrow> error + Definitions" where
  "fillDefinitions rDefinitions definitions =
     (case extractStringMap rDefinitions ''steps'' of
        Inl err \<Rightarrow> Inl err
      | Inr rSteps \<Rightarrow>
     (case (case rSteps of
              None \<Rightarrow> Inr definitions
            | Some m \<Rightarrow> fillStepsMap m definitions) of
        Inl err \<Rightarrow> Inl err
      | Inr definitions1 \<Rightarrow>
     (case extractStringMap rDefinitions ''filters'' of
        Inl err \<Rightarrow> Inl err
      | Inr rFilters \<Rightarrow>
     (case (case rFilters of
              None \<Rightarrow> Inr definitions1
            | Some m \<Rightarrow> fillFiltersMap m definitions1) of
        Inl err \<Rightarrow> Inl err
      | Inr definitions2 \<Rightarrow>
     (case extractStringMap rDefinitions ''conditions'' of
        Inl err \<Rightarrow> Inl err
      | Inr rConditions \<Rightarrow>
     (case (case rConditions of
              None \<Rightarrow> Inr definitions2
            | Some m \<Rightarrow> fillConditionsMap m definitions2) of
        Inl err \<Rightarrow> Inl err
      | Inr definitions3 \<Rightarrow>
     (case extractStringMap rDefinitions ''responses'' of
        Inl err \<Rightarrow> Inl err
      | Inr rResponses \<Rightarrow>
         (case rResponses of
            None \<Rightarrow> Inr definitions3
          | Some m \<Rightarrow> fillResponsesMap m definitions3))))))))"

definition fillSpec :: "ymap \<Rightarrow> Spec \<Rightarrow> error + Spec" where
  "fillSpec rSpec spec =
     (case extractStringMap rSpec ''definitions'' of
        Inl err \<Rightarrow> Inl err
      | Inr rSpecDefinitions \<Rightarrow>
     (case (case rSpecDefinitions of
              None \<Rightarrow> Inr spec
            | Some m \<Rightarrow>
               (case fillDefinitions m (Spec.Definitions spec) of
                  Inl err \<Rightarrow> Inl err
                | Inr definitions \<Rightarrow> Inr (spec\<lparr>Definitions := definitions\<rparr>))) of
        Inl err \<Rightarrow> Inl err
      | Inr spec1 \<Rightarrow>
     (case extractSliceOfAny rSpec ''endpoints'' of
        Inl err \<Rightarrow> Inl err
      | Inr rSpecEndpoints \<Rightarrow>
         (case rSpecEndpoints of
            None \<Rightarrow> Inr spec1
          | Some items \<Rightarrow>
             (case fillEndpoints (Spec.Endpoints spec1) items (Spec.Definitions spec1) of
                Inl err \<Rightarrow> Inl err
              | Inr endpoints \<Rightarrow> Inr (spec1\<lparr>Endpoints := endpoints\<rparr>))))))"

text \<open>\<^verbatim>\<open>Parse\<close> after the decoder: the argument is the decoded document.\<close>

definition Parse :: "yaml \<Rightarrow> error + Spec" where
  "Parse rSpec =
     (case rSpec of
        YMap rSpecMap \<Rightarrow> fillSpec rSpecMap createEmpty
      | _ \<Rightarrow> Inl (errInvalidInputReason ''spec must be an object''))"

declare createConditions.simps [simp del] fillConditionsItems.simps [simp del]
  fillConditionsItem.simps [simp del] createEndpoint.simps [simp del]

section \<open>The builders, block by block\<close>

text \<open>
  \<^verbatim>\<open>createEndpoint\<close> reads the string fields, the filters, the conditions, the
  sub-endpoints and the response, in this order, and then checks that the endpoint has
  sub-endpoints or a response. Each block, taken alone, is a function of the mapping and
  the registry; \<open>createEndpoint_blocks\<close> proves that the builder is their sequence
  followed by the check, with the first error returned.
\<close>

definition endpointStrings :: "ymap \<Rightarrow> error + Endpoint" where
  "endpointStrings rEndpoint =
     fillStrings
       [(''description'', setDescription),
        (''host'', setHost),
        (''method'', setMethod),
        (''path'', setPath),
        (''bodyFormat'', setBodyFormat)] rEndpoint zeroEndpoint"

definition endpointFilters :: "ymap \<Rightarrow> Definitions \<Rightarrow> error + Filter list" where
  "endpointFilters rEndpoint definitions =
     (case extractSliceOfAny rEndpoint ''filters'' of
        Inl err \<Rightarrow> Inl err
      | Inr None \<Rightarrow> Inr []
      | Inr (Some rFilterItems) \<Rightarrow> fillFiltersItems [] rFilterItems definitions)"

definition endpointConditions :: "ymap \<Rightarrow> Definitions \<Rightarrow> error + Condition list" where
  "endpointConditions rEndpoint definitions =
     (case extractSliceOfAny rEndpoint ''conditions'' of
        Inl err \<Rightarrow> Inl err
      | Inr None \<Rightarrow> Inr []
      | Inr (Some rConditionItems) \<Rightarrow> fillConditionsItems [] rConditionItems definitions)"

definition endpointEndpoints :: "ymap \<Rightarrow> Definitions \<Rightarrow> error + Endpoint list" where
  "endpointEndpoints rEndpoint definitions =
     (case extractSliceOfAny rEndpoint ''endpoints'' of
        Inl err \<Rightarrow> Inl err
      | Inr None \<Rightarrow> Inr []
      | Inr (Some rEndpointItems) \<Rightarrow> fillEndpoints [] rEndpointItems definitions)"

definition endpointResponse :: "ymap \<Rightarrow> Definitions \<Rightarrow> error + Response option" where
  "endpointResponse rEndpoint definitions =
     (case extractStringMap rEndpoint ''response'' of
        Inl err \<Rightarrow> Inl err
      | Inr None \<Rightarrow> Inr None
      | Inr (Some rResponse) \<Rightarrow>
         (case fillResponseItem zeroResponse rResponse definitions of
            Inl err \<Rightarrow> Inl err
          | Inr response \<Rightarrow> Inr (Some response)))"

definition incompleteEndpoint :: error where
  "incompleteEndpoint =
     errInvalidInputReason ''endpoint must have either sub-endpoints or a response''"

text \<open>The four blocks of \<^verbatim>\<open>fillDefinitions\<close> and the second block of \<^verbatim>\<open>fillSpec\<close>, each
  taken alone.\<close>

definition definitionsSteps :: "ymap \<Rightarrow> Definitions \<Rightarrow> error + Definitions" where
  "definitionsSteps rDefinitions definitions =
     (case extractStringMap rDefinitions ''steps'' of
        Inl err \<Rightarrow> Inl err
      | Inr None \<Rightarrow> Inr definitions
      | Inr (Some rSteps) \<Rightarrow> fillStepsMap rSteps definitions)"

definition definitionsFilters :: "ymap \<Rightarrow> Definitions \<Rightarrow> error + Definitions" where
  "definitionsFilters rDefinitions definitions =
     (case extractStringMap rDefinitions ''filters'' of
        Inl err \<Rightarrow> Inl err
      | Inr None \<Rightarrow> Inr definitions
      | Inr (Some rFilters) \<Rightarrow> fillFiltersMap rFilters definitions)"

definition definitionsConditions :: "ymap \<Rightarrow> Definitions \<Rightarrow> error + Definitions" where
  "definitionsConditions rDefinitions definitions =
     (case extractStringMap rDefinitions ''conditions'' of
        Inl err \<Rightarrow> Inl err
      | Inr None \<Rightarrow> Inr definitions
      | Inr (Some rConditions) \<Rightarrow> fillConditionsMap rConditions definitions)"

definition definitionsResponses :: "ymap \<Rightarrow> Definitions \<Rightarrow> error + Definitions" where
  "definitionsResponses rDefinitions definitions =
     (case extractStringMap rDefinitions ''responses'' of
        Inl err \<Rightarrow> Inl err
      | Inr None \<Rightarrow> Inr definitions
      | Inr (Some rResponses) \<Rightarrow> fillResponsesMap rResponses definitions)"

definition specEndpoints :: "yaml option \<Rightarrow> Spec \<Rightarrow> error + Spec" where
  "specEndpoints rSpecEndpoints spec =
     (case rSpecEndpoints of
        None \<Rightarrow> Inr spec
      | Some (YSeq items) \<Rightarrow>
         (case fillEndpoints (Spec.Endpoints spec) items (Spec.Definitions spec) of
            Inl err \<Rightarrow> Inl err
          | Inr endpoints \<Rightarrow> Inr (spec\<lparr>Endpoints := endpoints\<rparr>))
      | Some _ \<Rightarrow>
          Inl (errInvalidInputReason (''expected '' @ quoted ''endpoints'' @ '' to be an array'')))"

section \<open>Two runs on one document\<close>

text \<open>
  Two runs on one document: the association lists under \<^verbatim>\<open>steps\<close>, \<^verbatim>\<open>filters\<close>,
  \<^verbatim>\<open>conditions\<close> and \<^verbatim>\<open>responses\<close> hold the same entries, with distinct keys, in any
  order, and the documents agree on everything else the parser reads.
\<close>

definition sameEntries :: "ymap \<Rightarrow> ymap \<Rightarrow> bool" where
  "sameEntries m m' \<longleftrightarrow> distinct (map fst m) \<and> distinct (map fst m') \<and> set m = set m'"

fun sameNamespace :: "yaml option \<Rightarrow> yaml option \<Rightarrow> bool" where
  "sameNamespace (Some (YMap a)) (Some (YMap b)) = sameEntries a b"
| "sameNamespace x y = (x = y)"

definition sameDefinitions :: "ymap \<Rightarrow> ymap \<Rightarrow> bool" where
  "sameDefinitions D D' \<longleftrightarrow>
     sameNamespace (map_of D ''steps'') (map_of D' ''steps'')
   \<and> sameNamespace (map_of D ''filters'') (map_of D' ''filters'')
   \<and> sameNamespace (map_of D ''conditions'') (map_of D' ''conditions'')
   \<and> sameNamespace (map_of D ''responses'') (map_of D' ''responses'')"

fun sameRegistry :: "yaml option \<Rightarrow> yaml option \<Rightarrow> bool" where
  "sameRegistry (Some (YMap D)) (Some (YMap D')) = sameDefinitions D D'"
| "sameRegistry x y = (x = y)"

fun sameDocument :: "yaml \<Rightarrow> yaml \<Rightarrow> bool" where
  "sameDocument (YMap m) (YMap m') =
     (map_of m ''endpoints'' = map_of m' ''endpoints''
      \<and> sameRegistry (map_of m ''definitions'') (map_of m' ''definitions''))"
| "sameDocument x y = (x = y)"

text \<open>A registry is below another when every name it defines has the same value in the
  other.\<close>

definition def_le :: "Definitions \<Rightarrow> Definitions \<Rightarrow> bool" where
  "def_le d R \<longleftrightarrow>
     Definitions.Steps d \<subseteq>\<^sub>m Definitions.Steps R
   \<and> Definitions.Filters d \<subseteq>\<^sub>m Definitions.Filters R
   \<and> Definitions.Conditions d \<subseteq>\<^sub>m Definitions.Conditions R
   \<and> Definitions.Responses d \<subseteq>\<^sub>m Definitions.Responses R"

section \<open>Example documents\<close>

text \<open>A condition mapping with both \<^verbatim>\<open>any\<close> and \<^verbatim>\<open>all\<close>; an endpoint with a path, an empty
  list of sub-endpoints and a response; a step group that refers to a group of its own
  namespace, in the two visiting orders; two independent step groups, in the two
  visiting orders.\<close>

definition bothAnyAll :: ymap where
  "bothAnyAll =
     [(''any'', YSeq [YMap [(''source'', YString ''role''),
                            (''checks'', YSeq [YMap [(''equals'', YString ''admin'')]])]]),
      (''all'', YSeq [YMap [(''source'', YString ''plan''),
                            (''checks'', YSeq [YMap [(''equals'', YString ''pro'')]])]])]"

definition okEndpoint :: ymap where
  "okEndpoint =
     [(''path'', YString ''/x''), (''endpoints'', YSeq []),
      (''response'', YMap [(''status'', YInt 200)])]"

definition forwardReference :: yaml where
  "forwardReference =
     YMap [(''definitions'', YMap [(''steps'', YMap
        [(''clean'', YSeq [YMap [(''$ref'', YString ''trim'')]]),
         (''trim'', YSeq [YMap [(''trim'', YNull)]])])])]"

definition backwardReference :: yaml where
  "backwardReference =
     YMap [(''definitions'', YMap [(''steps'', YMap
        [(''trim'', YSeq [YMap [(''trim'', YNull)]]),
         (''clean'', YSeq [YMap [(''$ref'', YString ''trim'')]])])])]"

definition twoSteps :: yaml where
  "twoSteps =
     YMap [(''definitions'', YMap [(''steps'', YMap
        [(''trim'', YSeq [YMap [(''trim'', YNull)]]),
         (''upper'', YSeq [YMap [(''upper'', YNull)]])])])]"

definition twoStepsSwapped :: yaml where
  "twoStepsSwapped =
     YMap [(''definitions'', YMap [(''steps'', YMap
        [(''upper'', YSeq [YMap [(''upper'', YNull)]]),
         (''trim'', YSeq [YMap [(''trim'', YNull)]])])])]"

section \<open>Reading a field\<close>

text \<open>What the accessors return on an absent key and on a value of the right shape.\<close>

lemma extractString_absent: "map_of m k = None \<Longrightarrow> extractString m k = Inr None"
  by (simp add: extractString_def)

lemma extractString_string: "map_of m k = Some (YString s) \<Longrightarrow> extractString m k = Inr (Some s)"
  by (simp add: extractString_def)

lemma extractSliceOfAny_absent: "map_of m k = None \<Longrightarrow> extractSliceOfAny m k = Inr None"
  by (simp add: extractSliceOfAny_def)

lemma extractSliceOfAny_seq:
  "map_of m k = Some (YSeq xs) \<Longrightarrow> extractSliceOfAny m k = Inr (Some xs)"
  by (simp add: extractSliceOfAny_def)

lemma extractStringMap_absent: "map_of m k = None \<Longrightarrow> extractStringMap m k = Inr None"
  by (simp add: extractStringMap_def)

lemma extractStringMap_map:
  "map_of m k = Some (YMap mm) \<Longrightarrow> extractStringMap m k = Inr (Some mm)"
  by (simp add: extractStringMap_def)

lemma fillString_absent: "map_of m k = None \<Longrightarrow> fillString t m k r = Inr r"
  by (simp add: fillString_def extractString_absent)

lemma fillString_string: "map_of m k = Some (YString s) \<Longrightarrow> fillString t m k r = Inr (t s r)"
  by (simp add: fillString_def extractString_string)

section \<open>Response headers\<close>

lemma fillString_Format_Headers:
  "fillString (\<lambda>v r. r\<lparr>Format := v\<rparr>) m k r = Inr r' \<Longrightarrow> Headers r' = Headers r"
  by (auto simp: fillString_def split: sum.splits option.splits)

lemma fillString_Body_Headers:
  "fillString (\<lambda>v r. r\<lparr>Body := v\<rparr>) m k r = Inr r' \<Longrightarrow> Headers r' = Headers r"
  by (auto simp: fillString_def split: sum.splits option.splits)

lemma fillInt_Status_Headers:
  "fillInt (\<lambda>v r. r\<lparr>Status := v\<rparr>) m k r = Inr r' \<Longrightarrow> Headers r' = Headers r"
  by (auto simp: fillInt_def split: sum.splits option.splits)

text \<open>A response that is built in place, not looked up, has no headers, whatever the
  document gives under \<^verbatim>\<open>headers\<close>.\<close>

lemma createResponse_Headers_empty:
  assumes "map_of rResponse ''$ref'' = None"
    and "createResponse rResponse definitions = Inr response"
  shows "Headers response = Map.empty"
proof -
  from assms obtain r1 r2 r3 where
    "fillString (\<lambda>v r. r\<lparr>Format := v\<rparr>) rResponse ''format'' zeroResponse = Inr r1"
    "fillString (\<lambda>v r. r\<lparr>Body := v\<rparr>) rResponse ''body'' r1 = Inr r2"
    "fillInt (\<lambda>v r. r\<lparr>Status := v\<rparr>) rResponse ''status'' r2 = Inr r3"
    "response = r3"
    by (auto simp: createResponse_def extractString_absent split: sum.splits option.splits)
  then show ?thesis
    using fillString_Format_Headers fillString_Body_Headers fillInt_Status_Headers
    by (metis Response.select_convs(3) zeroResponse_def)
qed

text \<open>
  C1. The claim: the response built from a mapping whose \<^verbatim>\<open>headers\<close> field maps header
  names to sequences of strings has exactly those headers. The code builds the map of
  headers and drops it: on the document
  \<^verbatim>\<open>endpoints: [{response: {headers: {X-A: ["1"]}}}]\<close> \<^verbatim>\<open>Parse\<close> succeeds and the response
  of the endpoint is the zero response, with no entry for \<^verbatim>\<open>X-A\<close>.
\<close>

theorem headers_dropped:
  "Parse (YMap [(''endpoints'', YSeq [YMap [(''response'',
             YMap [(''headers'', YMap [(''X-A'', YSeq [YString ''1''])])])]])]) =
     Inr (createEmpty\<lparr>Endpoints :=
            [Endpoint [] [] [] [] [] [] [] [] (Some zeroResponse)]\<rparr>)
   \<and> Headers zeroResponse ''X-A'' = None"
  by (simp add: Parse_def fillSpec_def extractStringMap_def extractSliceOfAny_def
      createEndpoint.simps fillString_def extractString_def zeroEndpoint_def
      fillResponseItem_def createResponse_def fillInt_def extractInt_def zeroResponse_def
      createEmpty_def)

text \<open>A header value that is no string stops the loop over the values with a panic, at
  whatever position it stands.\<close>

lemma headerValuesLoop_panic:
  "\<exists>v\<in>set headerValuesSlice. \<forall>s. v \<noteq> YString s \<Longrightarrow>
   headerValuesLoop headers headerName headerValuesSlice = Inl Panic"
proof (induction headers headerName headerValuesSlice rule: headerValuesLoop.induct)
  case (2 headers headerName headerValue headerValuesSlice)
  then show ?case by (auto simp del: fun_upd_apply)
qed auto

text \<open>
  C2. The claim: a header whose sequence of values holds an element that is no string
  makes the response builder return a type error, never a panic. The code asserts
  \<^verbatim>\<open>headerValue.(string)\<close> without the \<^verbatim>\<open>ok\<close> result: on the response mapping
  \<^verbatim>\<open>{headers: {X-A: [1]}}\<close> the builder panics.
\<close>

theorem header_value_panics:
  "createResponse [(''headers'', YMap [(''X-A'', YSeq [YInt 1])])] definitions = Inl Panic"
  by (simp add: createResponse_def fillString_def extractString_def fillInt_def extractInt_def
      extractStringMap_def)

section \<open>References\<close>

text \<open>
  C6. Each of the four lookups returns the value stored under the name, and fails with
  the unknown-definition error, which carries the namespace and the name, when the name
  is absent: the result is then an error value, neither a panic nor a value. A step item
  \<^verbatim>\<open>{$ref: name}\<close>, and a filter, condition or response mapping with a string under
  \<^verbatim>\<open>$ref\<close>, is resolved by the lookup of its namespace.
\<close>

theorem registry_lookup:
  "(Definitions.Steps definitions refName = Some steps \<longrightarrow>
      getStepsByReference definitions refName = Inr steps)
   \<and> (Definitions.Steps definitions refName = None \<longrightarrow>
      getStepsByReference definitions refName = Inl (UnknownDefinition ''steps'' refName))
   \<and> (Definitions.Filters definitions refName = Some filters \<longrightarrow>
      getFiltersByReference definitions refName = Inr filters)
   \<and> (Definitions.Filters definitions refName = None \<longrightarrow>
      getFiltersByReference definitions refName = Inl (UnknownDefinition ''filters'' refName))
   \<and> (Definitions.Conditions definitions refName = Some conditions \<longrightarrow>
      getConditionsByReference definitions refName = Inr conditions)
   \<and> (Definitions.Conditions definitions refName = None \<longrightarrow>
      getConditionsByReference definitions refName =
        Inl (UnknownDefinition ''conditions'' refName))
   \<and> (Definitions.Responses definitions refName = Some response \<longrightarrow>
      getResponseByReference definitions refName = Inr response)
   \<and> (Definitions.Responses definitions refName = None \<longrightarrow>
      getResponseByReference definitions refName =
        Inl (UnknownDefinition ''responses'' refName))
   \<and> createSteps [(''$ref'', YString refName)] definitions =
        getStepsByReference definitions refName
   \<and> (map_of m ''$ref'' = Some (YString refName) \<longrightarrow>
        createFilters definitions m = getFiltersByReference definitions refName
      \<and> createConditions definitions m = getConditionsByReference definitions refName
      \<and> createResponse m definitions = getResponseByReference definitions refName)"
  by (simp add: getStepsByReference_def getFiltersByReference_def getConditionsByReference_def
      getResponseByReference_def errUnknownDefinitionWithName_def createSteps_def
      createFilters_def createConditions.simps createResponse_def extractString_def)

theorem registry_lookup_witness:
  "getStepsByReference
     ((Spec.Definitions createEmpty)\<lparr>Steps := [''trim'' \<mapsto> [\<lparr>Operation = ''trim'', Step.Parameters = []\<rparr>]]\<rparr>) ''trim''
     = Inr [\<lparr>Operation = ''trim'', Step.Parameters = []\<rparr>]
   \<and> getStepsByReference (Spec.Definitions createEmpty) ''trim'' = Inl (UnknownDefinition ''steps'' ''trim'')
   \<and> createConditions (Spec.Definitions createEmpty) [(''$ref'', YString ''isAdmin''), (''any'', YSeq [])]
     = Inl (UnknownDefinition ''conditions'' ''isAdmin'')"
  using registry_lookup [of "(Spec.Definitions createEmpty)\<lparr>Steps := [''trim'' \<mapsto> [\<lparr>Operation = ''trim'', Step.Parameters = []\<rparr>]]\<rparr>" "''trim''"
      "[\<lparr>Operation = ''trim'', Step.Parameters = []\<rparr>]"]
    registry_lookup [of "Spec.Definitions createEmpty" "''trim''"]
    registry_lookup [of "Spec.Definitions createEmpty" "''isAdmin''" _ _ _ _ "[(''$ref'', YString ''isAdmin''), (''any'', YSeq [])]"]
  by (simp add: createEmpty_def)

section \<open>The key count of check and step items\<close>

lemma createChecksLoop_single_keys:
  "\<forall>x\<in>set pre. \<exists>k v. x = YMap [(k, v)] \<Longrightarrow>
   createChecksLoop checks (pre @ rest) =
     createChecksLoop
       (checks @ map (\<lambda>x. case x of YMap m \<Rightarrow>
                   \<lparr>Name = fst (hd m), Check.Parameters = wrapParameters (snd (hd m))\<rparr>) pre)
       rest"
  by (induction pre arbitrary: checks) auto

lemma createChecksLoop_single_key_error:
  "createChecksLoop checks rChecks = Inl ObjectMustHaveSingleKey \<Longrightarrow>
   \<exists>m. YMap m \<in> set rChecks \<and> length m \<noteq> 1"
proof (induction checks rChecks rule: createChecksLoop.induct)
  case (2 checks rCheckMap rChecks)
  then show ?case by (cases "length rCheckMap = 1") auto
qed (auto simp: errInvalidInputReason_def)

text \<open>
  C4, as amended. A check item whose mapping has not exactly one key fails with the
  single-key error, after any number of well-formed items, and the check builder returns
  that error only for such an item. The step builder has a key-count check of its own:
  it returns the single-key error exactly when the item has more than one key (an item
  with no key passes).
\<close>

theorem single_key_check:
  "(length m \<noteq> 1 \<longrightarrow> (\<forall>x\<in>set pre. \<exists>k v. x = YMap [(k, v)]) \<longrightarrow>
      createChecks (pre @ YMap m # post) = Inl ObjectMustHaveSingleKey)
   \<and> (createChecks rChecks = Inl ObjectMustHaveSingleKey \<longrightarrow>
      (\<exists>m'. YMap m' \<in> set rChecks \<and> length m' \<noteq> 1))
   \<and> (createSteps rStepItem definitions = Inl ObjectMustHaveSingleKey
        \<longleftrightarrow> length rStepItem > 1)"
proof (intro conjI impI)
  assume "length m \<noteq> 1" "\<forall>x\<in>set pre. \<exists>k v. x = YMap [(k, v)]"
  then show "createChecks (pre @ YMap m # post) = Inl ObjectMustHaveSingleKey"
    by (simp add: createChecks_def createChecksLoop_single_keys errObjectMustHaveSingleKey_def)
next
  assume "createChecks rChecks = Inl ObjectMustHaveSingleKey"
  then show "\<exists>m'. YMap m' \<in> set rChecks \<and> length m' \<noteq> 1"
    unfolding createChecks_def by (rule createChecksLoop_single_key_error)
next
  show "createSteps rStepItem definitions = Inl ObjectMustHaveSingleKey
        \<longleftrightarrow> length rStepItem > 1"
    by (auto simp: createSteps_def errObjectMustHaveSingleKey_def extractString_def
        errInvalidInputReason_def getStepsByReference_def errUnknownDefinitionWithName_def
        split: option.splits yaml.splits)
qed

theorem single_key_check_witness:
  "createChecks [YMap [(''equals'', YString ''admin'')], YMap [(''a'', YNull), (''b'', YNull)]]
     = Inl ObjectMustHaveSingleKey
   \<and> createChecks [YMap []] = Inl ObjectMustHaveSingleKey
   \<and> createSteps [(''a'', YNull), (''b'', YNull)] (Spec.Definitions createEmpty)
     = Inl ObjectMustHaveSingleKey
   \<and> createSteps [] (Spec.Definitions createEmpty) \<noteq> Inl ObjectMustHaveSingleKey"
  using single_key_check [of "[(''a'', YNull), (''b'', YNull)]"
      "[YMap [(''equals'', YString ''admin'')]]" "[]" "[]"
      "[(''a'', YNull), (''b'', YNull)]" "Spec.Definitions createEmpty"]
    single_key_check [of "[]" "[]" "[]" "[]" "[]" "Spec.Definitions createEmpty"]
  by simp

text \<open>The claim says that the step builder does not reject an item with more than one
  key by a key count. It does.\<close>

theorem step_item_two_keys_counterexample:
  "createSteps [(''trim'', YNull), (''upper'', YNull)] (Spec.Definitions createEmpty) =
     Inl ObjectMustHaveSingleKey"
  by (simp add: createSteps_def errObjectMustHaveSingleKey_def)

section \<open>The checks of a condition\<close>

text \<open>The claim says that a condition with a source and an empty list of checks is
  rejected. It is built, with no check.\<close>

theorem empty_checks_counterexample:
  "createConditions (Spec.Definitions createEmpty)
     [(''source'', YString ''role''), (''checks'', YSeq [])] =
   Inr [Condition [] [] ''role'' []]"
  by (simp add: createConditions.simps extractString_def extractSliceOfAny_def fillString_def
      zeroCondition_def createChecks_def)

text \<open>
  C3, as amended. For a condition mapping with no \<^verbatim>\<open>$ref\<close>, \<^verbatim>\<open>any\<close> or \<^verbatim>\<open>all\<close> key and a
  non-empty \<^verbatim>\<open>source\<close> string: when \<^verbatim>\<open>checks\<close> is present and an empty sequence, the
  builder succeeds with one condition that has the source and no check; when \<^verbatim>\<open>checks\<close>
  is absent, it fails with the error "checks must be an array". The guard of the builder
  is on the nil slice, which only an absent key gives. An empty list of checks is
  accepted as an empty list of steps is: the filter with the same source and
  \<^verbatim>\<open>steps: []\<close> is built, with no step.
\<close>

theorem condition_checks_absent_or_empty:
  assumes "map_of m ''$ref'' = None" and "map_of m ''any'' = None" and "map_of m ''all'' = None"
    and "map_of m ''source'' = Some (YString src)" and "src \<noteq> []"
  shows "(map_of m ''checks'' = Some (YSeq []) \<longrightarrow>
            createConditions definitions m = Inr [Condition [] [] src []])
       \<and> (map_of m ''checks'' = None \<longrightarrow>
            createConditions definitions m = Inl (InvalidInput ''checks must be an array''))
       \<and> createFilters definitions [(''source'', YString src), (''steps'', YSeq [])] =
            Inr [\<lparr>Filter.Source = src, Target = [], Filter.Steps = []\<rparr>]"
  using assms
  by (simp add: createConditions.simps extractString_absent extractSliceOfAny_absent
      extractSliceOfAny_seq fillString_string zeroCondition_def createChecks_def
      errInvalidInputReason_def createFilters_def extractString_def fillString_def
      extractSliceOfAny_def zeroFilter_def)

theorem condition_checks_absent_or_empty_witness:
  "createConditions (Spec.Definitions createEmpty) [(''source'', YString ''role''), (''checks'', YSeq [])]
     = Inr [Condition [] [] ''role'' []]
   \<and> createConditions (Spec.Definitions createEmpty) [(''source'', YString ''role'')]
     = Inl (InvalidInput ''checks must be an array'')
   \<and> createFilters (Spec.Definitions createEmpty)
       [(''source'', YString ''role''), (''steps'', YSeq [])]
     = Inr [\<lparr>Filter.Source = ''role'', Target = [], Filter.Steps = []\<rparr>]"
  using condition_checks_absent_or_empty [of "[(''source'', YString ''role''), (''checks'', YSeq [])]" "''role''" "Spec.Definitions createEmpty"]
   condition_checks_absent_or_empty [of "[(''source'', YString ''role'')]" "''role''" "Spec.Definitions createEmpty"]
  by simp

section \<open>The shape of a condition\<close>

lemma setAny_zeroCondition: "setAny v zeroCondition = Condition v [] [] []"
  and setAll_zeroCondition: "setAll v zeroCondition = Condition [] v [] []"
  and setSource_zeroCondition: "setSource s zeroCondition = Condition [] [] s []"
  by (simp_all add: zeroCondition_def)

lemma zeroCondition_sel [simp]:
  "Condition.Any zeroCondition = []" "Condition.All zeroCondition = []"
  "Condition.Source zeroCondition = []" "Condition.Checks zeroCondition = []"
  by (simp_all add: zeroCondition_def)

lemma createConditions_any:
  "map_of m ''$ref'' = None \<Longrightarrow> map_of m ''any'' = Some v \<Longrightarrow>
   createConditions definitions m =
     (case v of
        YSeq sliceAny \<Rightarrow>
          (case fillConditionsItems [] sliceAny definitions of
             Inl err \<Rightarrow> Inl err
           | Inr conditions \<Rightarrow> Inr [Condition conditions [] [] []])
      | _ \<Rightarrow> Inl (InvalidInput (''expected '' @ quoted ''any'' @ '' to be an array'')))"
  by (cases v)
    (simp_all add: createConditions.simps extractString_absent extractSliceOfAny_def
      setAny_zeroCondition errInvalidInputReason_def cong: sum.case_cong)

lemma createConditions_source_checks:
  assumes "map_of m ''$ref'' = None" and "map_of m ''any'' = None" and "map_of m ''all'' = None"
    and "createConditions definitions m = Inr conditions"
  shows "\<exists>src rChecks checks. map_of m ''source'' = Some (YString src) \<and> src \<noteq> []
           \<and> map_of m ''checks'' = Some (YSeq rChecks) \<and> createChecks rChecks = Inr checks
           \<and> conditions = [Condition [] [] src checks]"
proof -
  from assms obtain condition rChecks checks where
    c: "fillString setSource m ''source'' zeroCondition = Inr condition"
    and ne: "Condition.Source condition \<noteq> []"
    and r: "extractSliceOfAny m ''checks'' = Inr (Some rChecks)"
    and k: "createChecks rChecks = Inr checks"
    and v: "conditions = [setChecks checks condition]"
    by (auto simp: createConditions.simps extractString_absent extractSliceOfAny_absent
        split: sum.splits option.splits if_splits)
  from c ne obtain src where "map_of m ''source'' = Some (YString src)"
    and "condition = Condition [] [] src []"
    by (auto simp: fillString_def extractString_def zeroCondition_def
        split: option.splits yaml.splits)
  moreover from r have "map_of m ''checks'' = Some (YSeq rChecks)"
    by (auto simp: extractSliceOfAny_def split: option.splits yaml.splits)
  ultimately show ?thesis using ne k v by auto
qed

text \<open>
  C5. The condition builder probes \<^verbatim>\<open>$ref\<close>, then \<^verbatim>\<open>any\<close>, then \<^verbatim>\<open>all\<close>, then
  \<^verbatim>\<open>source\<close> with \<^verbatim>\<open>checks\<close>, and the first that is present decides. A string under
  \<^verbatim>\<open>$ref\<close> resolves by the registry; without \<^verbatim>\<open>$ref\<close>, a sequence under \<^verbatim>\<open>any\<close> builds one
  condition with only \<^verbatim>\<open>Any\<close> set; without both, a sequence under \<^verbatim>\<open>all\<close> builds one
  condition with only \<^verbatim>\<open>All\<close> set. In a mapping with no \<^verbatim>\<open>$ref\<close> and with \<^verbatim>\<open>any\<close>, the
  field \<^verbatim>\<open>all\<close> is ignored: the result is the same for every mapping that differs only
  under the key \<^verbatim>\<open>all\<close>, and a condition that is built has empty \<^verbatim>\<open>All\<close>, \<^verbatim>\<open>Source\<close> and
  \<^verbatim>\<open>Checks\<close>. Only a mapping with none of the three keys is built from \<^verbatim>\<open>source\<close> and
  \<^verbatim>\<open>checks\<close>.
\<close>

theorem condition_shape_precedence:
  "(map_of m ''$ref'' = Some (YString refName) \<longrightarrow>
      createConditions definitions m = getConditionsByReference definitions refName)
   \<and> (map_of m ''$ref'' = None \<and> map_of m ''any'' = Some (YSeq sliceAny) \<longrightarrow>
      createConditions definitions m =
        (case fillConditionsItems [] sliceAny definitions of
           Inl err \<Rightarrow> Inl err
         | Inr conditions \<Rightarrow> Inr [Condition conditions [] [] []]))
   \<and> (map_of m ''$ref'' = None \<and> map_of m ''any'' = None
        \<and> map_of m ''all'' = Some (YSeq sliceAll) \<longrightarrow>
      createConditions definitions m =
        (case fillConditionsItems [] sliceAll definitions of
           Inl err \<Rightarrow> Inl err
         | Inr conditions \<Rightarrow> Inr [Condition [] conditions [] []]))
   \<and> (map_of m ''$ref'' = None \<and> map_of m ''any'' \<noteq> None
        \<and> (\<forall>k. k \<noteq> ''all'' \<longrightarrow> map_of m' k = map_of m k) \<longrightarrow>
      createConditions definitions m' = createConditions definitions m)
   \<and> (map_of m ''$ref'' = None \<and> map_of m ''any'' \<noteq> None
        \<and> createConditions definitions m = Inr conditions \<longrightarrow>
      (\<exists>nested. conditions = [Condition nested [] [] []]))
   \<and> (map_of m ''$ref'' = None \<and> map_of m ''any'' = None \<and> map_of m ''all'' = None
        \<and> createConditions definitions m = Inr conditions \<longrightarrow>
      (\<exists>src rChecks checks. map_of m ''source'' = Some (YString src) \<and> src \<noteq> []
           \<and> map_of m ''checks'' = Some (YSeq rChecks) \<and> createChecks rChecks = Inr checks
           \<and> conditions = [Condition [] [] src checks]))"
proof (intro conjI impI)
  assume "map_of m ''$ref'' = Some (YString refName)"
  then show "createConditions definitions m = getConditionsByReference definitions refName"
    by (simp add: createConditions.simps extractString_string)
next
  assume "map_of m ''$ref'' = None \<and> map_of m ''any'' = Some (YSeq sliceAny)"
  then show "createConditions definitions m =
        (case fillConditionsItems [] sliceAny definitions of
           Inl err \<Rightarrow> Inl err
         | Inr conditions \<Rightarrow> Inr [Condition conditions [] [] []])"
    by (simp add: createConditions_any)
next
  assume "map_of m ''$ref'' = None \<and> map_of m ''any'' = None
        \<and> map_of m ''all'' = Some (YSeq sliceAll)"
  then show "createConditions definitions m =
        (case fillConditionsItems [] sliceAll definitions of
           Inl err \<Rightarrow> Inl err
         | Inr conditions \<Rightarrow> Inr [Condition [] conditions [] []])"
    by (simp add: createConditions.simps extractString_absent extractSliceOfAny_absent
        extractSliceOfAny_seq setAll_zeroCondition cong: sum.case_cong)
next
  assume a: "map_of m ''$ref'' = None \<and> map_of m ''any'' \<noteq> None
        \<and> (\<forall>k. k \<noteq> ''all'' \<longrightarrow> map_of m' k = map_of m k)"
  then obtain v where v: "map_of m ''any'' = Some v" by auto
  from a have "map_of m' ''$ref'' = None" and "map_of m' ''any'' = Some v"
    using v by simp_all
  with a v show "createConditions definitions m' = createConditions definitions m"
    by (simp add: createConditions_any)
next
  assume a: "map_of m ''$ref'' = None \<and> map_of m ''any'' \<noteq> None
        \<and> createConditions definitions m = Inr conditions"
  then obtain v where v: "map_of m ''any'' = Some v" by auto
  with a show "\<exists>nested. conditions = [Condition nested [] [] []]"
    by (cases v) (auto simp: createConditions_any split: sum.splits)
next
  assume "map_of m ''$ref'' = None \<and> map_of m ''any'' = None \<and> map_of m ''all'' = None
        \<and> createConditions definitions m = Inr conditions"
  then show "\<exists>src rChecks checks. map_of m ''source'' = Some (YString src) \<and> src \<noteq> []
           \<and> map_of m ''checks'' = Some (YSeq rChecks) \<and> createChecks rChecks = Inr checks
           \<and> conditions = [Condition [] [] src checks]"
    using createConditions_source_checks by blast
qed

theorem condition_shape_precedence_witness:
  "createConditions (Spec.Definitions createEmpty) bothAnyAll =
     Inr [Condition
            [Condition [] [] ''role''
               [\<lparr>Name = ''equals'', Check.Parameters = [(''value'', YString ''admin'')]\<rparr>]]
            [] [] []]
   \<and> createConditions (Spec.Definitions createEmpty) [hd bothAnyAll] =
       createConditions (Spec.Definitions createEmpty) bothAnyAll"
proof -
  have ev: "fillConditionsItems []
        [YMap [(''source'', YString ''role''),
               (''checks'', YSeq [YMap [(''equals'', YString ''admin'')]])]]
        (Spec.Definitions createEmpty) =
      Inr [Condition [] [] ''role''
             [\<lparr>Name = ''equals'', Check.Parameters = [(''value'', YString ''admin'')]\<rparr>]]"
    by (simp add: fillConditionsItems.simps fillConditionsItem.simps createConditions.simps
        extractString_def extractSliceOfAny_def fillString_def zeroCondition_def
        createChecks_def)
  show ?thesis
    using condition_shape_precedence [of bothAnyAll _ "Spec.Definitions createEmpty"
        "[YMap [(''source'', YString ''role''),
               (''checks'', YSeq [YMap [(''equals'', YString ''admin'')]])]]" _
        "[hd bothAnyAll]"] ev
    by (simp add: bothAnyAll_def)
qed

section \<open>The fields of an endpoint\<close>

lemma fillStrings_preserves:
  "fillStrings targets m r = Inr r' \<Longrightarrow>
   (\<And>k t v x. (k, t) \<in> set targets \<Longrightarrow> P (t v x) = P x) \<Longrightarrow> P r' = P r"
proof (induction targets arbitrary: r)
  case Nil
  then show ?case by simp
next
  case (Cons a targets)
  obtain k t where a: "a = (k, t)" by (cases a)
  from Cons.prems(1) a obtain r1 where
    r1: "fillString t m k r = Inr r1" and rest: "fillStrings targets m r1 = Inr r'"
    by (auto split: sum.splits)
  from r1 have "P r1 = P r"
    using Cons.prems(2) [of k t] a by (auto simp: fillString_def split: sum.splits option.splits)
  moreover have "P r' = P r1"
    by (rule Cons.IH [OF rest]) (use Cons.prems(2) in auto)
  ultimately show ?case by simp
qed

lemma setters_keep [simp]:
  "Endpoint.Filters (setDescription v e) = Endpoint.Filters e"
  "Endpoint.Filters (setHost v e) = Endpoint.Filters e"
  "Endpoint.Filters (setMethod v e) = Endpoint.Filters e"
  "Endpoint.Filters (setPath v e) = Endpoint.Filters e"
  "Endpoint.Filters (setBodyFormat v e) = Endpoint.Filters e"
  "Endpoint.Conditions (setDescription v e) = Endpoint.Conditions e"
  "Endpoint.Conditions (setHost v e) = Endpoint.Conditions e"
  "Endpoint.Conditions (setMethod v e) = Endpoint.Conditions e"
  "Endpoint.Conditions (setPath v e) = Endpoint.Conditions e"
  "Endpoint.Conditions (setBodyFormat v e) = Endpoint.Conditions e"
  "Endpoint.Endpoints (setDescription v e) = Endpoint.Endpoints e"
  "Endpoint.Endpoints (setHost v e) = Endpoint.Endpoints e"
  "Endpoint.Endpoints (setMethod v e) = Endpoint.Endpoints e"
  "Endpoint.Endpoints (setPath v e) = Endpoint.Endpoints e"
  "Endpoint.Endpoints (setBodyFormat v e) = Endpoint.Endpoints e"
  "Endpoint.Response (setDescription v e) = Endpoint.Response e"
  "Endpoint.Response (setHost v e) = Endpoint.Response e"
  "Endpoint.Response (setMethod v e) = Endpoint.Response e"
  "Endpoint.Response (setPath v e) = Endpoint.Response e"
  "Endpoint.Response (setBodyFormat v e) = Endpoint.Response e"
  by (cases e; simp)+

lemma endpointStrings_rest:
  assumes "endpointStrings m = Inr e1"
  shows "\<exists>d h me p b. e1 = Endpoint d h me p b [] [] [] None"
proof -
  have "Endpoint.Filters e1 = Endpoint.Filters zeroEndpoint"
    using assms unfolding endpointStrings_def
    by (rule fillStrings_preserves) auto
  moreover have "Endpoint.Conditions e1 = Endpoint.Conditions zeroEndpoint"
    using assms unfolding endpointStrings_def
    by (rule fillStrings_preserves) auto
  moreover have "Endpoint.Endpoints e1 = Endpoint.Endpoints zeroEndpoint"
    using assms unfolding endpointStrings_def
    by (rule fillStrings_preserves) auto
  moreover have "Endpoint.Response e1 = Endpoint.Response zeroEndpoint"
    using assms unfolding endpointStrings_def
    by (rule fillStrings_preserves) auto
  ultimately show ?thesis
    by (cases e1) (simp add: zeroEndpoint_def)
qed

lemma filters_block:
  "(case extractSliceOfAny m ''filters'' of
      Inl err \<Rightarrow> Inl err
    | Inr rFilterItems \<Rightarrow>
       (case (case rFilterItems of
                None \<Rightarrow> Inr (Endpoint d h me p b [] cs es r)
              | Some items \<Rightarrow>
                 (case fillFiltersItems [] items definitions of
                    Inl err \<Rightarrow> Inl err
                  | Inr filters \<Rightarrow> Inr (Endpoint d h me p b filters cs es r))) of
          Inl err \<Rightarrow> Inl err
        | Inr endpoint2 \<Rightarrow> K endpoint2)) =
   (case endpointFilters m definitions of
      Inl err \<Rightarrow> Inl err
    | Inr filters \<Rightarrow> K (Endpoint d h me p b filters cs es r))"
  by (simp add: endpointFilters_def split: sum.splits option.splits)

lemma conditions_block:
  "(case extractSliceOfAny m ''conditions'' of
      Inl err \<Rightarrow> Inl err
    | Inr rConditionItems \<Rightarrow>
       (case (case rConditionItems of
                None \<Rightarrow> Inr (Endpoint d h me p b fs [] es r)
              | Some items \<Rightarrow>
                 (case fillConditionsItems [] items definitions of
                    Inl err \<Rightarrow> Inl err
                  | Inr conditions \<Rightarrow> Inr (Endpoint d h me p b fs conditions es r))) of
          Inl err \<Rightarrow> Inl err
        | Inr endpoint3 \<Rightarrow> K endpoint3)) =
   (case endpointConditions m definitions of
      Inl err \<Rightarrow> Inl err
    | Inr conditions \<Rightarrow> K (Endpoint d h me p b fs conditions es r))"
  by (simp add: endpointConditions_def split: sum.splits option.splits)

lemma endpoints_block:
  "(case extractSliceOfAny m ''endpoints'' of
      Inl err \<Rightarrow> Inl err
    | Inr rEndpointItems \<Rightarrow>
       (case (case rEndpointItems of
                None \<Rightarrow> Inr (Endpoint d h me p b fs cs [] r)
              | Some items \<Rightarrow>
                 (case fillEndpoints [] items definitions of
                    Inl err \<Rightarrow> Inl err
                  | Inr endpoints \<Rightarrow> Inr (Endpoint d h me p b fs cs endpoints r))) of
          Inl err \<Rightarrow> Inl err
        | Inr endpoint4 \<Rightarrow> K endpoint4)) =
   (case endpointEndpoints m definitions of
      Inl err \<Rightarrow> Inl err
    | Inr endpoints \<Rightarrow> K (Endpoint d h me p b fs cs endpoints r))"
  by (simp add: endpointEndpoints_def split: sum.splits option.splits)

lemma response_block:
  "(case extractStringMap m ''response'' of
      Inl err \<Rightarrow> Inl err
    | Inr rResponse \<Rightarrow>
       (case (case rResponse of
                None \<Rightarrow> Inr (Endpoint d h me p b fs cs es None)
              | Some rResponseMap \<Rightarrow>
                 (case fillResponseItem zeroResponse rResponseMap definitions of
                    Inl err \<Rightarrow> Inl err
                  | Inr response \<Rightarrow> Inr (Endpoint d h me p b fs cs es (Some response)))) of
          Inl err \<Rightarrow> Inl err
        | Inr endpoint \<Rightarrow> K endpoint)) =
   (case endpointResponse m definitions of
      Inl err \<Rightarrow> Inl err
    | Inr response \<Rightarrow> K (Endpoint d h me p b fs cs es response))"
  by (simp add: endpointResponse_def split: sum.splits option.splits)

lemma createEndpoint_blocks:
  "createEndpoint m definitions =
     (case endpointStrings m of
        Inl err \<Rightarrow> Inl err
      | Inr e1 \<Rightarrow>
     (case endpointFilters m definitions of
        Inl err \<Rightarrow> Inl err
      | Inr filters \<Rightarrow>
     (case endpointConditions m definitions of
        Inl err \<Rightarrow> Inl err
      | Inr conditions \<Rightarrow>
     (case endpointEndpoints m definitions of
        Inl err \<Rightarrow> Inl err
      | Inr endpoints \<Rightarrow>
     (case endpointResponse m definitions of
        Inl err \<Rightarrow> Inl err
      | Inr response \<Rightarrow>
          if endpoints = [] \<and> response = None then Inl incompleteEndpoint
          else Inr (Endpoint (Description e1) (Host e1) (Method e1) (Path e1)
                      (BodyFormat e1) filters conditions endpoints response))))))"
proof (cases "endpointStrings m")
  case (Inl err)
  then show ?thesis
    by (simp add: createEndpoint.simps endpointStrings_def)
next
  case (Inr e1)
  then obtain d h me p b where e1: "e1 = Endpoint d h me p b [] [] [] None"
    using endpointStrings_rest by blast
  have "createEndpoint m definitions =
     (case endpointFilters m definitions of
        Inl err \<Rightarrow> Inl err
      | Inr filters \<Rightarrow>
     (case endpointConditions m definitions of
        Inl err \<Rightarrow> Inl err
      | Inr conditions \<Rightarrow>
     (case endpointEndpoints m definitions of
        Inl err \<Rightarrow> Inl err
      | Inr endpoints \<Rightarrow>
     (case endpointResponse m definitions of
        Inl err \<Rightarrow> Inl err
      | Inr response \<Rightarrow>
          if endpoints = [] \<and> response = None then Inl incompleteEndpoint
          else Inr (Endpoint d h me p b filters conditions endpoints response)))))"
    apply (subst createEndpoint.simps)
    unfolding endpointStrings_def [symmetric]
    using Inr e1
    by (simp add: filters_block conditions_block endpoints_block response_block
        incompleteEndpoint_def cong: sum.case_cong option.case_cong if_cong)
  with Inr e1 show ?thesis by (simp cong: sum.case_cong if_cong)
qed

lemma fillEndpoints_length:
  "fillEndpoints endpoints rEndpoints definitions = Inr endpoints' \<Longrightarrow>
   length endpoints' = length endpoints + length rEndpoints"
proof (induction rEndpoints arbitrary: endpoints)
  case Nil
  then show ?case by simp
next
  case (Cons x xs)
  from Cons.prems obtain rEndpointMap endpoint where
    "x = YMap rEndpointMap"
    "createEndpoint rEndpointMap definitions = Inr endpoint"
    "fillEndpoints (endpoints @ [endpoint]) xs definitions = Inr endpoints'"
    by (auto split: yaml.splits sum.splits)
  then show ?case using Cons.IH [of "endpoints @ [endpoint]"] by simp
qed

lemma endpointEndpoints_empty_iff:
  assumes "endpointEndpoints m definitions = Inr es"
  shows "es = [] \<longleftrightarrow>
     map_of m ''endpoints'' = None \<or> map_of m ''endpoints'' = Some (YSeq [])"
proof (cases "map_of m ''endpoints''")
  case None
  with assms show ?thesis
    by (simp add: endpointEndpoints_def extractSliceOfAny_def)
next
  case (Some v)
  with assms obtain items where v: "v = YSeq items"
    and f: "fillEndpoints [] items definitions = Inr es"
    by (cases v) (auto simp: endpointEndpoints_def extractSliceOfAny_def)
  from fillEndpoints_length [OF f] have "length es = length items" by simp
  with Some v show ?thesis by auto
qed

lemma endpointResponse_None_iff:
  assumes "endpointResponse m definitions = Inr ropt"
  shows "ropt = None \<longleftrightarrow> map_of m ''response'' = None"
  using assms
  by (auto simp: endpointResponse_def extractStringMap_def
      split: option.splits yaml.splits sum.splits)

lemma createEndpoint_Inr_blocks:
  assumes "createEndpoint m definitions = Inr e"
  shows "\<exists>strs fs cs es ropt.
           endpointStrings m = Inr strs \<and> endpointFilters m definitions = Inr fs
         \<and> endpointConditions m definitions = Inr cs
         \<and> endpointEndpoints m definitions = Inr es
         \<and> endpointResponse m definitions = Inr ropt
         \<and> \<not> (es = [] \<and> ropt = None)
         \<and> e = Endpoint (Description strs) (Host strs) (Method strs) (Path strs) (BodyFormat strs)
                 fs cs es ropt"
proof -
  from assms obtain strs where 1: "endpointStrings m = Inr strs"
    by (cases "endpointStrings m") (simp_all add: createEndpoint_blocks)
  from assms 1 obtain fs where 2: "endpointFilters m definitions = Inr fs"
    by (cases "endpointFilters m definitions") (simp_all add: createEndpoint_blocks)
  from assms 1 2 obtain cs where 3: "endpointConditions m definitions = Inr cs"
    by (cases "endpointConditions m definitions") (simp_all add: createEndpoint_blocks)
  from assms 1 2 3 obtain es where 4: "endpointEndpoints m definitions = Inr es"
    by (cases "endpointEndpoints m definitions") (simp_all add: createEndpoint_blocks)
  from assms 1 2 3 4 obtain ropt where 5: "endpointResponse m definitions = Inr ropt"
    by (cases "endpointResponse m definitions") (simp_all add: createEndpoint_blocks)
  from assms 1 2 3 4 5 show ?thesis
    by (simp add: createEndpoint_blocks split: if_splits)
qed

lemma fillString_other_key:
  "k \<noteq> name \<Longrightarrow> fillString t ((k, v) # m) name r = fillString t m name r"
  by (simp add: fillString_def extractString_def)

lemma fillStrings_other_key:
  "k \<notin> fst ` set targets \<Longrightarrow> fillStrings targets ((k, v) # m) r = fillStrings targets m r"
proof (induction targets arbitrary: r)
  case Nil
  then show ?case by simp
next
  case (Cons a targets)
  obtain name t where a: "a = (name, t)" by (cases a)
  with Cons.prems have "k \<noteq> name" and "k \<notin> fst ` set targets" by auto
  with Cons.IH a show ?case
    by (simp add: fillString_other_key split: sum.splits)
qed

lemma endpointStrings_other_key:
  "k \<notin> {''description'', ''host'', ''method'', ''path'', ''bodyFormat''} \<Longrightarrow>
   endpointStrings ((k, v) # m) = endpointStrings m"
  unfolding endpointStrings_def by (rule fillStrings_other_key) simp

lemma endpointFilters_other_key:
  "k \<noteq> ''filters'' \<Longrightarrow> endpointFilters ((k, v) # m) definitions = endpointFilters m definitions"
  by (simp add: endpointFilters_def extractSliceOfAny_def)

text \<open>
  C7. When the five blocks of the endpoint builder that read the fields return without
  error, with sub-endpoints \<open>es\<close> and response \<open>ropt\<close>, the builder fails with the
  incomplete-endpoint error if and only if \<open>es\<close> is empty and there is no response, and
  otherwise returns the endpoint with these fields; \<open>es\<close> is empty exactly when the key
  \<^verbatim>\<open>endpoints\<close> is absent or holds the empty sequence, and there is no response exactly
  when the key \<^verbatim>\<open>response\<close> is absent. No endpoint that is returned has both an empty
  list of sub-endpoints and no response, and a mapping with \<^verbatim>\<open>endpoints\<close> absent or
  empty and without \<^verbatim>\<open>response\<close> always fails.
\<close>

theorem endpoint_needs_endpoints_or_response:
  "(endpointStrings m = Inr strs \<and> endpointFilters m definitions = Inr fs
      \<and> endpointConditions m definitions = Inr cs
      \<and> endpointEndpoints m definitions = Inr es
      \<and> endpointResponse m definitions = Inr ropt \<longrightarrow>
        (createEndpoint m definitions = Inl incompleteEndpoint \<longleftrightarrow> es = [] \<and> ropt = None)
      \<and> (\<not> (es = [] \<and> ropt = None) \<longrightarrow>
           createEndpoint m definitions =
             Inr (Endpoint (Description strs) (Host strs) (Method strs) (Path strs) (BodyFormat strs)
                    fs cs es ropt))
      \<and> (es = [] \<longleftrightarrow>
           map_of m ''endpoints'' = None \<or> map_of m ''endpoints'' = Some (YSeq []))
      \<and> (ropt = None \<longleftrightarrow> map_of m ''response'' = None))
   \<and> (createEndpoint m definitions = Inr e \<longrightarrow>
        Endpoint.Endpoints e \<noteq> [] \<or> Endpoint.Response e \<noteq> None)
   \<and> ((map_of m ''endpoints'' = None \<or> map_of m ''endpoints'' = Some (YSeq []))
        \<and> map_of m ''response'' = None \<longrightarrow> isl (createEndpoint m definitions))"
proof (intro conjI impI)
  assume a: "endpointStrings m = Inr strs \<and> endpointFilters m definitions = Inr fs
      \<and> endpointConditions m definitions = Inr cs
      \<and> endpointEndpoints m definitions = Inr es
      \<and> endpointResponse m definitions = Inr ropt"
  then show "createEndpoint m definitions = Inl incompleteEndpoint \<longleftrightarrow> es = [] \<and> ropt = None"
    by (simp add: createEndpoint_blocks)
  from a show "es = [] \<longleftrightarrow>
      map_of m ''endpoints'' = None \<or> map_of m ''endpoints'' = Some (YSeq [])"
    using endpointEndpoints_empty_iff by blast
  from a show "ropt = None \<longleftrightarrow> map_of m ''response'' = None"
    using endpointResponse_None_iff by blast
  assume "\<not> (es = [] \<and> ropt = None)"
  with a show "createEndpoint m definitions =
      Inr (Endpoint (Description strs) (Host strs) (Method strs) (Path strs) (BodyFormat strs)
             fs cs es ropt)"
    by (simp add: createEndpoint_blocks)
next
  assume "createEndpoint m definitions = Inr e"
  from createEndpoint_Inr_blocks [OF this]
  show "Endpoint.Endpoints e \<noteq> [] \<or> Endpoint.Response e \<noteq> None"
    by auto
next
  assume a: "(map_of m ''endpoints'' = None \<or> map_of m ''endpoints'' = Some (YSeq []))
        \<and> map_of m ''response'' = None"
  show "isl (createEndpoint m definitions)"
  proof (rule ccontr)
    assume "\<not> isl (createEndpoint m definitions)"
    then obtain e where "createEndpoint m definitions = Inr e"
      by (cases "createEndpoint m definitions") auto
    from createEndpoint_Inr_blocks [OF this] obtain es ropt where
      "endpointEndpoints m definitions = Inr es" "endpointResponse m definitions = Inr ropt"
      "\<not> (es = [] \<and> ropt = None)" by blast
    with a show False
      using endpointEndpoints_empty_iff endpointResponse_None_iff by blast
  qed
qed

theorem endpoint_needs_endpoints_or_response_witness:
  "createEndpoint [(''endpoints'', YSeq [])] (Spec.Definitions createEmpty) =
     Inl incompleteEndpoint
   \<and> createEndpoint okEndpoint (Spec.Definitions createEmpty) =
     Inr (Endpoint [] [] [] ''/x'' [] [] [] []
            (Some \<lparr>Status = 200, Format = [], Headers = Map.empty, Body = []\<rparr>))"
  using endpoint_needs_endpoints_or_response
      [where m = "[(''endpoints'', YSeq [])]" and strs = zeroEndpoint
        and definitions = "Spec.Definitions createEmpty" and fs = "[]" and cs = "[]"
        and es = "[]" and ropt = None]
    endpoint_needs_endpoints_or_response
      [where m = okEndpoint and strs = "Endpoint [] [] [] ''/x'' [] [] [] [] None"
        and definitions = "Spec.Definitions createEmpty" and fs = "[]" and cs = "[]"
        and es = "[]"
        and ropt = "Some \<lparr>Status = 200, Format = [], Headers = Map.empty, Body = []\<rparr>"]
  by (simp add: okEndpoint_def endpointStrings_def endpointFilters_def endpointConditions_def
      endpointEndpoints_def endpointResponse_def fillString_def extractString_def
      extractSliceOfAny_def extractStringMap_def zeroEndpoint_def fillResponseItem_def
      createResponse_def fillInt_def extractInt_def zeroResponse_def)

text \<open>
  C9. An endpoint mapping whose string fields read without error and whose \<^verbatim>\<open>filters\<close>
  is the empty sequence fails with "each filter must have at least one item"; when the
  filters read without error as well and \<^verbatim>\<open>conditions\<close> is the empty sequence, it
  fails with "each condition must have at least one item"; with either field empty the
  builder never succeeds. Absence is accepted: an endpoint mapping without the key that
  builds to an endpoint (with no filter, or no condition) fails with that error once the
  key is added with an empty sequence.
\<close>

theorem empty_filters_or_conditions_rejected:
  "(endpointStrings m = Inr strs \<and> map_of m ''filters'' = Some (YSeq []) \<longrightarrow>
      createEndpoint m definitions =
        Inl (InvalidInput ''each filter must have at least one item''))
   \<and> (endpointStrings m = Inr strs \<and> endpointFilters m definitions = Inr fs
        \<and> map_of m ''conditions'' = Some (YSeq []) \<longrightarrow>
      createEndpoint m definitions =
        Inl (InvalidInput ''each condition must have at least one item''))
   \<and> (map_of m ''filters'' = Some (YSeq []) \<or> map_of m ''conditions'' = Some (YSeq []) \<longrightarrow>
      isl (createEndpoint m definitions))
   \<and> (createEndpoint m definitions = Inr e \<and> map_of m ''filters'' = None \<longrightarrow>
      Endpoint.Filters e = []
      \<and> createEndpoint ((''filters'', YSeq []) # m) definitions =
          Inl (InvalidInput ''each filter must have at least one item''))
   \<and> (createEndpoint m definitions = Inr e \<and> map_of m ''conditions'' = None \<longrightarrow>
      Endpoint.Conditions e = []
      \<and> createEndpoint ((''conditions'', YSeq []) # m) definitions =
          Inl (InvalidInput ''each condition must have at least one item''))"
proof -
  have filters: "createEndpoint m' definitions =
        Inl (InvalidInput ''each filter must have at least one item'')"
    if "endpointStrings m' = Inr e'" "map_of m' ''filters'' = Some (YSeq [])" for m' e'
    using that
    by (simp add: createEndpoint_blocks endpointFilters_def extractSliceOfAny_seq
        fillFiltersItems_def errInvalidInputReason_def)
  have conditions: "createEndpoint m' definitions =
        Inl (InvalidInput ''each condition must have at least one item'')"
    if "endpointStrings m' = Inr e'" "endpointFilters m' definitions = Inr fs'"
      "map_of m' ''conditions'' = Some (YSeq [])" for m' e' fs'
    using that
    by (simp add: createEndpoint_blocks endpointConditions_def extractSliceOfAny_seq
        fillConditionsItems.simps errInvalidInputReason_def)
  have fails: "isl (createEndpoint m definitions)"
    if "map_of m ''filters'' = Some (YSeq []) \<or> map_of m ''conditions'' = Some (YSeq [])"
  proof (rule ccontr)
    assume "\<not> isl (createEndpoint m definitions)"
    then obtain e' where "createEndpoint m definitions = Inr e'"
      by (cases "createEndpoint m definitions") auto
    from createEndpoint_Inr_blocks [OF this] obtain fs' cs' where
      "endpointFilters m definitions = Inr fs'" "endpointConditions m definitions = Inr cs'"
      by blast
    with that show False
      by (auto simp: endpointFilters_def endpointConditions_def extractSliceOfAny_seq
          fillFiltersItems_def fillConditionsItems.simps)
  qed
  have absentF: "Endpoint.Filters e = []
      \<and> createEndpoint ((''filters'', YSeq []) # m) definitions =
          Inl (InvalidInput ''each filter must have at least one item'')"
    if "createEndpoint m definitions = Inr e" "map_of m ''filters'' = None"
  proof -
    from createEndpoint_Inr_blocks [OF that(1)] obtain e' fs' cs' es' r' where
      b: "endpointStrings m = Inr e'" "endpointFilters m definitions = Inr fs'"
        "e = Endpoint (Description e') (Host e') (Method e') (Path e') (BodyFormat e')
               fs' cs' es' r'"
      by blast
    from b(2) that(2) have "fs' = []"
      by (simp add: endpointFilters_def extractSliceOfAny_absent)
    moreover have "endpointStrings ((''filters'', YSeq []) # m) = Inr e'"
      using b(1) by (simp add: endpointStrings_other_key)
    ultimately show ?thesis using b(3) filters [of "(''filters'', YSeq []) # m" e'] by simp
  qed
  have absentC: "Endpoint.Conditions e = []
      \<and> createEndpoint ((''conditions'', YSeq []) # m) definitions =
          Inl (InvalidInput ''each condition must have at least one item'')"
    if "createEndpoint m definitions = Inr e" "map_of m ''conditions'' = None"
  proof -
    from createEndpoint_Inr_blocks [OF that(1)] obtain e' fs' cs' es' r' where
      b: "endpointStrings m = Inr e'" "endpointFilters m definitions = Inr fs'"
        "endpointConditions m definitions = Inr cs'"
        "e = Endpoint (Description e') (Host e') (Method e') (Path e') (BodyFormat e')
               fs' cs' es' r'"
      by blast
    from b(3) that(2) have "cs' = []"
      by (simp add: endpointConditions_def extractSliceOfAny_absent)
    moreover have "endpointStrings ((''conditions'', YSeq []) # m) = Inr e'"
      using b(1) by (simp add: endpointStrings_other_key)
    moreover have "endpointFilters ((''conditions'', YSeq []) # m) definitions = Inr fs'"
      using b(2) by (simp add: endpointFilters_other_key)
    ultimately show ?thesis
      using b(4) conditions [of "(''conditions'', YSeq []) # m" e' fs'] by simp
  qed
  from filters [of m strs] conditions [of m strs fs] fails absentF absentC
  show ?thesis by blast
qed

theorem empty_filters_or_conditions_rejected_witness:
  "createEndpoint okEndpoint (Spec.Definitions createEmpty) =
     Inr (Endpoint [] [] [] ''/x'' [] [] [] []
            (Some \<lparr>Status = 200, Format = [], Headers = Map.empty, Body = []\<rparr>))
   \<and> createEndpoint ((''filters'', YSeq []) # okEndpoint) (Spec.Definitions createEmpty) =
       Inl (InvalidInput ''each filter must have at least one item'')
   \<and> createEndpoint ((''conditions'', YSeq []) # okEndpoint) (Spec.Definitions createEmpty) =
       Inl (InvalidInput ''each condition must have at least one item'')"
proof -
  have ok: "createEndpoint okEndpoint (Spec.Definitions createEmpty) =
     Inr (Endpoint [] [] [] ''/x'' [] [] [] []
            (Some \<lparr>Status = 200, Format = [], Headers = Map.empty, Body = []\<rparr>))"
    by (simp add: createEndpoint.simps okEndpoint_def fillString_def extractString_def
      extractSliceOfAny_def extractStringMap_def zeroEndpoint_def fillResponseItem_def
      createResponse_def fillInt_def extractInt_def zeroResponse_def)
  have absent: "map_of okEndpoint ''filters'' = None" "map_of okEndpoint ''conditions'' = None"
    by (simp_all add: okEndpoint_def)
  from empty_filters_or_conditions_rejected
      [where m = okEndpoint and definitions = "Spec.Definitions createEmpty"
        and e = "Endpoint [] [] [] ''/x'' [] [] [] []
            (Some \<lparr>Status = 200, Format = [], Headers = Map.empty, Body = []\<rparr>)"]
    ok absent
  show ?thesis by blast
qed

section \<open>The order in which a namespace is visited\<close>

text \<open>
  \<^verbatim>\<open>fillStepsMap\<close> and its three siblings range over a Go map, so the order in which the
  entries of a namespace are built differs from run to run, and each entry is built
  against the registry as the earlier entries have left it. Two facts make the result of
  a successful run independent of that order: a builder that succeeds against a registry
  returns the same value against every larger registry, and a run stores under each name
  the value that the builder returns against the final registry.
\<close>

lemma def_le_refl [simp]: "def_le d d"
  by (simp add: def_le_def)

lemma def_le_trans: "def_le a b \<Longrightarrow> def_le b c \<Longrightarrow> def_le a c"
  unfolding def_le_def by (blast intro: map_le_trans)

lemma map_le_Some: "m \<subseteq>\<^sub>m m' \<Longrightarrow> m k = Some v \<Longrightarrow> m' k = Some v"
  by (metis domI map_le_def)

lemma createSteps_mono:
  "def_le d R \<Longrightarrow> createSteps m d = Inr v \<Longrightarrow> createSteps m R = Inr v"
  by (auto simp: createSteps_def getStepsByReference_def def_le_def dest: map_le_Some
      split: if_splits sum.splits option.splits)

lemma fillStepsItemsLoop_mono:
  "def_le d R \<Longrightarrow> fillStepsItemsLoop acc xs d = Inr v \<Longrightarrow> fillStepsItemsLoop acc xs R = Inr v"
proof (induction acc xs d rule: fillStepsItemsLoop.induct)
  case (2 steps rStepItemMap rStepItems definitions)
  then show ?case
    by (auto simp: fillStepsItem_def dest: createSteps_mono split: sum.splits)
qed (auto simp: errInvalidInputReason_def)

lemma fillStepsItems_mono:
  "def_le d R \<Longrightarrow> fillStepsItems acc xs d = Inr v \<Longrightarrow> fillStepsItems acc xs R = Inr v"
  by (auto simp: fillStepsItems_def dest: fillStepsItemsLoop_mono split: if_splits)

lemma createFiltersStepsLoop_mono:
  "def_le d R \<Longrightarrow> createFiltersStepsLoop f xs d = Inr v \<Longrightarrow>
   createFiltersStepsLoop f xs R = Inr v"
proof (induction f xs d rule: createFiltersStepsLoop.induct)
  case (2 fltr rStepMap rSteps definitions)
  then show ?case
    by (auto dest: createSteps_mono split: sum.splits)
qed auto

lemma createFilters_mono:
  assumes "def_le d R" and "createFilters d m = Inr v"
  shows "createFilters R m = Inr v"
proof -
  have "\<And>n x. Definitions.Filters d n = Some x \<Longrightarrow> Definitions.Filters R n = Some x"
    using assms(1) by (auto simp: def_le_def dest: map_le_Some)
  with assms(2) createFiltersStepsLoop_mono [OF assms(1)] show ?thesis
    by (auto simp: createFilters_def getFiltersByReference_def
        split: if_splits sum.splits option.splits)
qed

lemma fillFiltersItemsLoop_mono:
  "def_le d R \<Longrightarrow> fillFiltersItemsLoop acc xs d = Inr v \<Longrightarrow>
   fillFiltersItemsLoop acc xs R = Inr v"
proof (induction acc xs d rule: fillFiltersItemsLoop.induct)
  case (2 filters rFilterItemMap rFilterItems definitions)
  then show ?case
    by (auto simp: fillFiltersItem_def dest: createFilters_mono split: sum.splits)
qed auto

lemma fillFiltersItems_mono:
  "def_le d R \<Longrightarrow> fillFiltersItems acc xs d = Inr v \<Longrightarrow> fillFiltersItems acc xs R = Inr v"
  by (auto simp: fillFiltersItems_def dest: fillFiltersItemsLoop_mono split: if_splits)

lemma createResponse_mono:
  "def_le d R \<Longrightarrow> createResponse m d = Inr v \<Longrightarrow> createResponse m R = Inr v"
  by (auto simp: createResponse_def getResponseByReference_def def_le_def dest: map_le_Some
      split: sum.splits option.splits)

lemma fillResponseItem_mono:
  "def_le d R \<Longrightarrow> fillResponseItem r m d = Inr v \<Longrightarrow> fillResponseItem r m R = Inr v"
  by (auto simp: fillResponseItem_def dest: createResponse_mono split: sum.splits)

lemma createConditions_mono:
  "def_le d R \<Longrightarrow> createConditions d m = Inr v \<Longrightarrow> createConditions R m = Inr v"
  and fillConditionsItems_mono:
  "def_le d R \<Longrightarrow> fillConditionsItems acc xs d = Inr v \<Longrightarrow>
   fillConditionsItems acc xs R = Inr v"
  and fillConditionsItemsLoop_mono:
  "def_le d R \<Longrightarrow> fillConditionsItemsLoop acc' xs' d = Inr v \<Longrightarrow>
   fillConditionsItemsLoop acc' xs' R = Inr v"
  and fillConditionsItem_mono:
  "def_le d R \<Longrightarrow> fillConditionsItem acc'' m' d = Inr v \<Longrightarrow>
   fillConditionsItem acc'' m' R = Inr v"
proof (induction d m and acc xs d and acc' xs' d and acc'' m' d arbitrary: v and v and v and v
    rule: createConditions_fillConditionsItems_fillConditionsItemsLoop_fillConditionsItem.induct)
  case (1 definitions rConditionItem)
  have ref: "\<And>n x. Definitions.Conditions definitions n = Some x \<Longrightarrow>
      Definitions.Conditions R n = Some x"
    using "1.prems"(1) by (auto simp: def_le_def dest: map_le_Some)
  show ?case
  proof (cases "extractString rConditionItem ''$ref''")
    case (Inl err)
    with "1.prems" show ?thesis by (simp add: createConditions.simps)
  next
    case (Inr refName)
    show ?thesis
    proof (cases refName)
      case (Some n)
      with Inr "1.prems" ref show ?thesis
        by (auto simp: createConditions.simps getConditionsByReference_def
            split: option.splits)
    next
      case None
      note noref = Inr None
      show ?thesis
      proof (cases "extractSliceOfAny rConditionItem ''any''")
        case (Inl err)
        with noref "1.prems" show ?thesis by (simp add: createConditions.simps)
      next
        case (Inr sliceAny)
        note any = Inr
        show ?thesis
        proof (cases sliceAny)
          case (Some xs)
          from "1.prems"(2) noref any Some obtain cs where
            cs: "fillConditionsItems (Condition.Any zeroCondition) xs definitions = Inr cs"
            and v: "v = [setAny cs zeroCondition]"
            by (auto simp: createConditions.simps split: sum.splits)
          from "1.IH"(2) [OF noref(1) noref(2) any Some "1.prems"(1) cs]
          show ?thesis using noref any Some v by (simp add: createConditions.simps)
        next
          case None
          note noany = any None
          show ?thesis
          proof (cases "extractSliceOfAny rConditionItem ''all''")
            case (Inl err)
            with noref noany "1.prems" show ?thesis by (simp add: createConditions.simps)
          next
            case (Inr sliceAll)
            note all = Inr
            show ?thesis
            proof (cases sliceAll)
              case (Some xs)
              from "1.prems"(2) noref noany all Some obtain cs where
                cs: "fillConditionsItems (Condition.All zeroCondition) xs definitions = Inr cs"
                and v: "v = [setAll cs zeroCondition]"
                by (auto simp: createConditions.simps split: sum.splits)
              from "1.IH"(1) [OF noref(1) noref(2) noany(1) noany(2) all Some "1.prems"(1) cs]
              show ?thesis using noref noany all Some v by (simp add: createConditions.simps)
            next
              case None
              with noref noany all "1.prems"(2) show ?thesis
                by (simp add: createConditions.simps)
            qed
          qed
        qed
      qed
    qed
  qed
next
  case (2 conditions rConditionItems definitions)
  then show ?case
    by (auto simp: fillConditionsItems.simps split: if_splits)
next
  case (3 conditions definitions)
  then show ?case by simp
next
  case (4 conditions rConditionItem rConditionItems definitions)
  from "4.prems"(2) obtain x7 b where
    x: "rConditionItem = YMap x7"
    and b: "fillConditionsItem conditions x7 definitions = Inr b"
    and r: "fillConditionsItemsLoop b rConditionItems definitions = Inr v"
    by (auto split: yaml.splits sum.splits)
  from "4.IH"(1) [OF x "4.prems"(1) b] "4.IH"(2) [OF x b "4.prems"(1) r] x
  show ?case by simp
next
  case (5 conditions rConditionItem definitions)
  then show ?case
    by (auto simp: fillConditionsItem.simps split: sum.splits)
qed

lemma def_le_antisym: "def_le a b \<Longrightarrow> def_le b a \<Longrightarrow> a = b"
  by (cases a, cases b) (simp add: def_le_def map_le_antisym)

lemma map_le_fresh: "k \<notin> dom m \<Longrightarrow> m \<subseteq>\<^sub>m m(k \<mapsto> v)"
  by (auto simp: map_le_def)

lemma map_le_store: "m \<subseteq>\<^sub>m m' \<Longrightarrow> m' k = Some v \<Longrightarrow> m(k \<mapsto> v) \<subseteq>\<^sub>m m'"
  by (auto simp: map_le_def)

lemma fillStepsMap_fields:
  "fillStepsMap rs d = Inr d' \<Longrightarrow>
   Definitions.Filters d' = Definitions.Filters d
   \<and> Definitions.Conditions d' = Definitions.Conditions d
   \<and> Definitions.Responses d' = Definitions.Responses d
   \<and> dom (Definitions.Steps d') = dom (Definitions.Steps d) \<union> fst ` set rs"
  by (induction rs d rule: fillStepsMap.induct) (auto split: sum.splits)

lemma fillStepsMap_fixpoint:
  "fillStepsMap rs d = Inr d' \<Longrightarrow> distinct (map fst rs) \<Longrightarrow>
   fst ` set rs \<inter> dom (Definitions.Steps d) = {} \<Longrightarrow>
   def_le d d'
   \<and> (\<forall>(n, y)\<in>set rs. \<exists>items v. y = YSeq items
          \<and> fillStepsItems [] items d' = Inr v \<and> Definitions.Steps d' n = Some v)"
proof (induction rs arbitrary: d)
  case Nil
  then show ?case by simp
next
  case (Cons a rest)
  obtain n y where a: "a = (n, y)" by (cases a)
  from Cons.prems(1) a obtain items v where
    y: "y = YSeq items" and v: "fillStepsItems [] items d = Inr v"
    and rest: "fillStepsMap rest
        (d\<lparr>Steps := (Definitions.Steps d)(n \<mapsto> v)\<rparr>) = Inr d'"
    by (cases y) (auto split: sum.splits)
  let ?d1 = "d\<lparr>Steps := (Definitions.Steps d)(n \<mapsto> v)\<rparr>"
  from Cons.prems(2,3) a have fresh: "n \<notin> dom (Definitions.Steps d)"
    and d: "distinct (map fst rest)"
    and disj: "fst ` set rest \<inter> dom (Definitions.Steps ?d1) = {}"
    by auto
  from fresh have le1: "def_le d ?d1" by (simp add: def_le_def map_le_fresh)
  from Cons.IH [OF rest d disj] have le2: "def_le ?d1 d'"
    and fp: "\<forall>(n, y)\<in>set rest. \<exists>items v. y = YSeq items
          \<and> fillStepsItems [] items d' = Inr v \<and> Definitions.Steps d' n = Some v"
    by simp_all
  from le1 le2 have le: "def_le d d'" by (rule def_le_trans)
  from le2 have "Definitions.Steps d' n = Some v"
    by (auto simp: def_le_def dest: map_le_Some)
  moreover from le v have "fillStepsItems [] items d' = Inr v" by (rule fillStepsItems_mono)
  ultimately show ?case using le fp a y by simp
qed

lemma fillStepsMap_below:
  "fillStepsMap rs d = Inr d1 \<Longrightarrow> def_le d R \<Longrightarrow>
   \<forall>(n, y)\<in>set rs. \<exists>items v. y = YSeq items
          \<and> fillStepsItems [] items R = Inr v \<and> Definitions.Steps R n = Some v \<Longrightarrow>
   def_le d1 R"
proof (induction rs arbitrary: d)
  case Nil
  then show ?case by simp
next
  case (Cons a rest)
  obtain n y where a: "a = (n, y)" by (cases a)
  from Cons.prems(1) a obtain items v where
    y: "y = YSeq items" and v: "fillStepsItems [] items d = Inr v"
    and rest: "fillStepsMap rest
        (d\<lparr>Steps := (Definitions.Steps d)(n \<mapsto> v)\<rparr>) = Inr d1"
    by (cases y) (auto split: sum.splits)
  from Cons.prems(2) v have "fillStepsItems [] items R = Inr v" by (rule fillStepsItems_mono)
  with Cons.prems(3) a y have "Definitions.Steps R n = Some v" by auto
  with Cons.prems(2) have "def_le (d\<lparr>Steps := (Definitions.Steps d)(n \<mapsto> v)\<rparr>) R"
    by (simp add: def_le_def map_le_store)
  from Cons.IH [OF rest this] Cons.prems(3) show ?case by simp
qed

lemma fillStepsMap_order:
  assumes "sameEntries rs rs'" and "fst ` set rs \<inter> dom (Definitions.Steps d) = {}"
    and "fillStepsMap rs d = Inr d1" and "fillStepsMap rs' d = Inr d2"
  shows "d1 = d2"
proof -
  from assms(1) have dist: "distinct (map fst rs)" "distinct (map fst rs')"
    and eq: "set rs = set rs'"
    by (simp_all add: sameEntries_def)
  from assms(2) eq have disj': "fst ` set rs' \<inter> dom (Definitions.Steps d) = {}" by simp
  note f1 = fillStepsMap_fixpoint [OF assms(3) dist(1) assms(2)]
  note f2 = fillStepsMap_fixpoint [OF assms(4) dist(2) disj']
  have "def_le d1 d2"
    using fillStepsMap_below [OF assms(3), of d2] f2 eq by simp
  moreover have "def_le d2 d1"
    using fillStepsMap_below [OF assms(4), of d1] f1 eq by simp
  ultimately show ?thesis by (rule def_le_antisym)
qed

lemma fillFiltersMap_fields:
  "fillFiltersMap rs d = Inr d' \<Longrightarrow>
   Definitions.Steps d' = Definitions.Steps d
   \<and> Definitions.Conditions d' = Definitions.Conditions d
   \<and> Definitions.Responses d' = Definitions.Responses d
   \<and> dom (Definitions.Filters d') = dom (Definitions.Filters d) \<union> fst ` set rs"
  by (induction rs d rule: fillFiltersMap.induct) (auto split: sum.splits)

lemma fillFiltersMap_fixpoint:
  "fillFiltersMap rs d = Inr d' \<Longrightarrow> distinct (map fst rs) \<Longrightarrow>
   fst ` set rs \<inter> dom (Definitions.Filters d) = {} \<Longrightarrow>
   def_le d d'
   \<and> (\<forall>(n, y)\<in>set rs. \<exists>items v. y = YSeq items
          \<and> fillFiltersItems [] items d' = Inr v \<and> Definitions.Filters d' n = Some v)"
proof (induction rs arbitrary: d)
  case Nil
  then show ?case by simp
next
  case (Cons a rest)
  obtain n y where a: "a = (n, y)" by (cases a)
  from Cons.prems(1) a obtain items v where
    y: "y = YSeq items" and v: "fillFiltersItems [] items d = Inr v"
    and rest: "fillFiltersMap rest
        (d\<lparr>Filters := (Definitions.Filters d)(n \<mapsto> v)\<rparr>) = Inr d'"
    by (cases y) (auto split: sum.splits)
  let ?d1 = "d\<lparr>Filters := (Definitions.Filters d)(n \<mapsto> v)\<rparr>"
  from Cons.prems(2,3) a have fresh: "n \<notin> dom (Definitions.Filters d)"
    and d: "distinct (map fst rest)"
    and disj: "fst ` set rest \<inter> dom (Definitions.Filters ?d1) = {}"
    by auto
  from fresh have le1: "def_le d ?d1" by (simp add: def_le_def map_le_fresh)
  from Cons.IH [OF rest d disj] have le2: "def_le ?d1 d'"
    and fp: "\<forall>(n, y)\<in>set rest. \<exists>items v. y = YSeq items
          \<and> fillFiltersItems [] items d' = Inr v \<and> Definitions.Filters d' n = Some v"
    by simp_all
  from le1 le2 have le: "def_le d d'" by (rule def_le_trans)
  from le2 have "Definitions.Filters d' n = Some v"
    by (auto simp: def_le_def dest: map_le_Some)
  moreover from le v have "fillFiltersItems [] items d' = Inr v" by (rule fillFiltersItems_mono)
  ultimately show ?case using le fp a y by simp
qed

lemma fillFiltersMap_below:
  "fillFiltersMap rs d = Inr d1 \<Longrightarrow> def_le d R \<Longrightarrow>
   \<forall>(n, y)\<in>set rs. \<exists>items v. y = YSeq items
          \<and> fillFiltersItems [] items R = Inr v \<and> Definitions.Filters R n = Some v \<Longrightarrow>
   def_le d1 R"
proof (induction rs arbitrary: d)
  case Nil
  then show ?case by simp
next
  case (Cons a rest)
  obtain n y where a: "a = (n, y)" by (cases a)
  from Cons.prems(1) a obtain items v where
    y: "y = YSeq items" and v: "fillFiltersItems [] items d = Inr v"
    and rest: "fillFiltersMap rest
        (d\<lparr>Filters := (Definitions.Filters d)(n \<mapsto> v)\<rparr>) = Inr d1"
    by (cases y) (auto split: sum.splits)
  from Cons.prems(2) v have "fillFiltersItems [] items R = Inr v" by (rule fillFiltersItems_mono)
  with Cons.prems(3) a y have "Definitions.Filters R n = Some v" by auto
  with Cons.prems(2) have "def_le (d\<lparr>Filters := (Definitions.Filters d)(n \<mapsto> v)\<rparr>) R"
    by (simp add: def_le_def map_le_store)
  from Cons.IH [OF rest this] Cons.prems(3) show ?case by simp
qed

lemma fillFiltersMap_order:
  assumes "sameEntries rs rs'" and "fst ` set rs \<inter> dom (Definitions.Filters d) = {}"
    and "fillFiltersMap rs d = Inr d1" and "fillFiltersMap rs' d = Inr d2"
  shows "d1 = d2"
proof -
  from assms(1) have dist: "distinct (map fst rs)" "distinct (map fst rs')"
    and eq: "set rs = set rs'"
    by (simp_all add: sameEntries_def)
  from assms(2) eq have disj': "fst ` set rs' \<inter> dom (Definitions.Filters d) = {}" by simp
  note f1 = fillFiltersMap_fixpoint [OF assms(3) dist(1) assms(2)]
  note f2 = fillFiltersMap_fixpoint [OF assms(4) dist(2) disj']
  have "def_le d1 d2"
    using fillFiltersMap_below [OF assms(3), of d2] f2 eq by simp
  moreover have "def_le d2 d1"
    using fillFiltersMap_below [OF assms(4), of d1] f1 eq by simp
  ultimately show ?thesis by (rule def_le_antisym)
qed

lemma fillConditionsMap_fields:
  "fillConditionsMap rs d = Inr d' \<Longrightarrow>
   Definitions.Steps d' = Definitions.Steps d
   \<and> Definitions.Filters d' = Definitions.Filters d
   \<and> Definitions.Responses d' = Definitions.Responses d
   \<and> dom (Definitions.Conditions d') = dom (Definitions.Conditions d) \<union> fst ` set rs"
  by (induction rs d rule: fillConditionsMap.induct) (auto split: sum.splits)

lemma fillConditionsMap_fixpoint:
  "fillConditionsMap rs d = Inr d' \<Longrightarrow> distinct (map fst rs) \<Longrightarrow>
   fst ` set rs \<inter> dom (Definitions.Conditions d) = {} \<Longrightarrow>
   def_le d d'
   \<and> (\<forall>(n, y)\<in>set rs. \<exists>items v. y = YSeq items
          \<and> fillConditionsItems [] items d' = Inr v \<and> Definitions.Conditions d' n = Some v)"
proof (induction rs arbitrary: d)
  case Nil
  then show ?case by simp
next
  case (Cons a rest)
  obtain n y where a: "a = (n, y)" by (cases a)
  from Cons.prems(1) a obtain items v where
    y: "y = YSeq items" and v: "fillConditionsItems [] items d = Inr v"
    and rest: "fillConditionsMap rest
        (d\<lparr>Conditions := (Definitions.Conditions d)(n \<mapsto> v)\<rparr>) = Inr d'"
    by (cases y) (auto split: sum.splits)
  let ?d1 = "d\<lparr>Conditions := (Definitions.Conditions d)(n \<mapsto> v)\<rparr>"
  from Cons.prems(2,3) a have fresh: "n \<notin> dom (Definitions.Conditions d)"
    and d: "distinct (map fst rest)"
    and disj: "fst ` set rest \<inter> dom (Definitions.Conditions ?d1) = {}"
    by auto
  from fresh have le1: "def_le d ?d1" by (simp add: def_le_def map_le_fresh)
  from Cons.IH [OF rest d disj] have le2: "def_le ?d1 d'"
    and fp: "\<forall>(n, y)\<in>set rest. \<exists>items v. y = YSeq items
          \<and> fillConditionsItems [] items d' = Inr v \<and> Definitions.Conditions d' n = Some v"
    by simp_all
  from le1 le2 have le: "def_le d d'" by (rule def_le_trans)
  from le2 have "Definitions.Conditions d' n = Some v"
    by (auto simp: def_le_def dest: map_le_Some)
  moreover from le v have "fillConditionsItems [] items d' = Inr v" by (rule fillConditionsItems_mono)
  ultimately show ?case using le fp a y by simp
qed

lemma fillConditionsMap_below:
  "fillConditionsMap rs d = Inr d1 \<Longrightarrow> def_le d R \<Longrightarrow>
   \<forall>(n, y)\<in>set rs. \<exists>items v. y = YSeq items
          \<and> fillConditionsItems [] items R = Inr v \<and> Definitions.Conditions R n = Some v \<Longrightarrow>
   def_le d1 R"
proof (induction rs arbitrary: d)
  case Nil
  then show ?case by simp
next
  case (Cons a rest)
  obtain n y where a: "a = (n, y)" by (cases a)
  from Cons.prems(1) a obtain items v where
    y: "y = YSeq items" and v: "fillConditionsItems [] items d = Inr v"
    and rest: "fillConditionsMap rest
        (d\<lparr>Conditions := (Definitions.Conditions d)(n \<mapsto> v)\<rparr>) = Inr d1"
    by (cases y) (auto split: sum.splits)
  from Cons.prems(2) v have "fillConditionsItems [] items R = Inr v" by (rule fillConditionsItems_mono)
  with Cons.prems(3) a y have "Definitions.Conditions R n = Some v" by auto
  with Cons.prems(2) have "def_le (d\<lparr>Conditions := (Definitions.Conditions d)(n \<mapsto> v)\<rparr>) R"
    by (simp add: def_le_def map_le_store)
  from Cons.IH [OF rest this] Cons.prems(3) show ?case by simp
qed

lemma fillConditionsMap_order:
  assumes "sameEntries rs rs'" and "fst ` set rs \<inter> dom (Definitions.Conditions d) = {}"
    and "fillConditionsMap rs d = Inr d1" and "fillConditionsMap rs' d = Inr d2"
  shows "d1 = d2"
proof -
  from assms(1) have dist: "distinct (map fst rs)" "distinct (map fst rs')"
    and eq: "set rs = set rs'"
    by (simp_all add: sameEntries_def)
  from assms(2) eq have disj': "fst ` set rs' \<inter> dom (Definitions.Conditions d) = {}" by simp
  note f1 = fillConditionsMap_fixpoint [OF assms(3) dist(1) assms(2)]
  note f2 = fillConditionsMap_fixpoint [OF assms(4) dist(2) disj']
  have "def_le d1 d2"
    using fillConditionsMap_below [OF assms(3), of d2] f2 eq by simp
  moreover have "def_le d2 d1"
    using fillConditionsMap_below [OF assms(4), of d1] f1 eq by simp
  ultimately show ?thesis by (rule def_le_antisym)
qed

lemma fillResponsesMap_fields:
  "fillResponsesMap rs d = Inr d' \<Longrightarrow>
   Definitions.Steps d' = Definitions.Steps d
   \<and> Definitions.Filters d' = Definitions.Filters d
   \<and> Definitions.Conditions d' = Definitions.Conditions d
   \<and> dom (Definitions.Responses d') = dom (Definitions.Responses d) \<union> fst ` set rs"
  by (induction rs d rule: fillResponsesMap.induct) (auto split: sum.splits)

lemma fillResponsesMap_fixpoint:
  "fillResponsesMap rs d = Inr d' \<Longrightarrow> distinct (map fst rs) \<Longrightarrow>
   fst ` set rs \<inter> dom (Definitions.Responses d) = {} \<Longrightarrow>
   def_le d d'
   \<and> (\<forall>(n, y)\<in>set rs. \<exists>items v. y = YMap items
          \<and> fillResponseItem zeroResponse items d' = Inr v \<and> Definitions.Responses d' n = Some v)"
proof (induction rs arbitrary: d)
  case Nil
  then show ?case by simp
next
  case (Cons a rest)
  obtain n y where a: "a = (n, y)" by (cases a)
  from Cons.prems(1) a obtain items v where
    y: "y = YMap items" and v: "fillResponseItem zeroResponse items d = Inr v"
    and rest: "fillResponsesMap rest
        (d\<lparr>Responses := (Definitions.Responses d)(n \<mapsto> v)\<rparr>) = Inr d'"
    by (cases y) (auto split: sum.splits)
  let ?d1 = "d\<lparr>Responses := (Definitions.Responses d)(n \<mapsto> v)\<rparr>"
  from Cons.prems(2,3) a have fresh: "n \<notin> dom (Definitions.Responses d)"
    and d: "distinct (map fst rest)"
    and disj: "fst ` set rest \<inter> dom (Definitions.Responses ?d1) = {}"
    by auto
  from fresh have le1: "def_le d ?d1" by (simp add: def_le_def map_le_fresh)
  from Cons.IH [OF rest d disj] have le2: "def_le ?d1 d'"
    and fp: "\<forall>(n, y)\<in>set rest. \<exists>items v. y = YMap items
          \<and> fillResponseItem zeroResponse items d' = Inr v \<and> Definitions.Responses d' n = Some v"
    by simp_all
  from le1 le2 have le: "def_le d d'" by (rule def_le_trans)
  from le2 have "Definitions.Responses d' n = Some v"
    by (auto simp: def_le_def dest: map_le_Some)
  moreover from le v have "fillResponseItem zeroResponse items d' = Inr v" by (rule fillResponseItem_mono)
  ultimately show ?case using le fp a y by simp
qed

lemma fillResponsesMap_below:
  "fillResponsesMap rs d = Inr d1 \<Longrightarrow> def_le d R \<Longrightarrow>
   \<forall>(n, y)\<in>set rs. \<exists>items v. y = YMap items
          \<and> fillResponseItem zeroResponse items R = Inr v \<and> Definitions.Responses R n = Some v \<Longrightarrow>
   def_le d1 R"
proof (induction rs arbitrary: d)
  case Nil
  then show ?case by simp
next
  case (Cons a rest)
  obtain n y where a: "a = (n, y)" by (cases a)
  from Cons.prems(1) a obtain items v where
    y: "y = YMap items" and v: "fillResponseItem zeroResponse items d = Inr v"
    and rest: "fillResponsesMap rest
        (d\<lparr>Responses := (Definitions.Responses d)(n \<mapsto> v)\<rparr>) = Inr d1"
    by (cases y) (auto split: sum.splits)
  from Cons.prems(2) v have "fillResponseItem zeroResponse items R = Inr v" by (rule fillResponseItem_mono)
  with Cons.prems(3) a y have "Definitions.Responses R n = Some v" by auto
  with Cons.prems(2) have "def_le (d\<lparr>Responses := (Definitions.Responses d)(n \<mapsto> v)\<rparr>) R"
    by (simp add: def_le_def map_le_store)
  from Cons.IH [OF rest this] Cons.prems(3) show ?case by simp
qed

lemma fillResponsesMap_order:
  assumes "sameEntries rs rs'" and "fst ` set rs \<inter> dom (Definitions.Responses d) = {}"
    and "fillResponsesMap rs d = Inr d1" and "fillResponsesMap rs' d = Inr d2"
  shows "d1 = d2"
proof -
  from assms(1) have dist: "distinct (map fst rs)" "distinct (map fst rs')"
    and eq: "set rs = set rs'"
    by (simp_all add: sameEntries_def)
  from assms(2) eq have disj': "fst ` set rs' \<inter> dom (Definitions.Responses d) = {}" by simp
  note f1 = fillResponsesMap_fixpoint [OF assms(3) dist(1) assms(2)]
  note f2 = fillResponsesMap_fixpoint [OF assms(4) dist(2) disj']
  have "def_le d1 d2"
    using fillResponsesMap_below [OF assms(3), of d2] f2 eq by simp
  moreover have "def_le d2 d1"
    using fillResponsesMap_below [OF assms(4), of d1] f1 eq by simp
  ultimately show ?thesis by (rule def_le_antisym)
qed

lemma fillDefinitions_blocks:
  "fillDefinitions D d =
     (case definitionsSteps D d of
        Inl err \<Rightarrow> Inl err
      | Inr d1 \<Rightarrow>
     (case definitionsFilters D d1 of
        Inl err \<Rightarrow> Inl err
      | Inr d2 \<Rightarrow>
     (case definitionsConditions D d2 of
        Inl err \<Rightarrow> Inl err
      | Inr d3 \<Rightarrow> definitionsResponses D d3)))"
  by (simp add: fillDefinitions_def definitionsSteps_def definitionsFilters_def
      definitionsConditions_def definitionsResponses_def split: sum.splits option.splits)

lemma sameNamespace_cases:
  assumes "sameNamespace x y"
  obtains (entries) a b where "x = Some (YMap a)" "y = Some (YMap b)" "sameEntries a b"
  | (equal) "x = y" "\<And>a. x \<noteq> Some (YMap a)"
  using assms by (cases "(x, y)" rule: sameNamespace.cases) auto

lemma definitionsSteps_order:
  assumes "sameNamespace (map_of D ''steps'') (map_of D' ''steps'')"
    and "Definitions.Steps d = Map.empty"
    and "definitionsSteps D d = Inr d1" and "definitionsSteps D' d = Inr d2"
  shows "d1 = d2"
  using assms(1)
proof (cases rule: sameNamespace_cases)
  case (entries a b)
  with assms(3,4) have "fillStepsMap a d = Inr d1" "fillStepsMap b d = Inr d2"
    by (simp_all add: definitionsSteps_def extractStringMap_def)
  with entries(3) assms(2) show ?thesis
    using fillStepsMap_order [of a b d d1 d2] by simp
next
  case equal
  with assms(3,4) show ?thesis
    by (auto simp: definitionsSteps_def extractStringMap_def
        split: option.splits yaml.splits)
qed

lemma definitionsFilters_order:
  assumes "sameNamespace (map_of D ''filters'') (map_of D' ''filters'')"
    and "Definitions.Filters d = Map.empty"
    and "definitionsFilters D d = Inr d1" and "definitionsFilters D' d = Inr d2"
  shows "d1 = d2"
  using assms(1)
proof (cases rule: sameNamespace_cases)
  case (entries a b)
  with assms(3,4) have "fillFiltersMap a d = Inr d1" "fillFiltersMap b d = Inr d2"
    by (simp_all add: definitionsFilters_def extractStringMap_def)
  with entries(3) assms(2) show ?thesis
    using fillFiltersMap_order [of a b d d1 d2] by simp
next
  case equal
  with assms(3,4) show ?thesis
    by (auto simp: definitionsFilters_def extractStringMap_def
        split: option.splits yaml.splits)
qed

lemma definitionsConditions_order:
  assumes "sameNamespace (map_of D ''conditions'') (map_of D' ''conditions'')"
    and "Definitions.Conditions d = Map.empty"
    and "definitionsConditions D d = Inr d1" and "definitionsConditions D' d = Inr d2"
  shows "d1 = d2"
  using assms(1)
proof (cases rule: sameNamespace_cases)
  case (entries a b)
  with assms(3,4) have "fillConditionsMap a d = Inr d1" "fillConditionsMap b d = Inr d2"
    by (simp_all add: definitionsConditions_def extractStringMap_def)
  with entries(3) assms(2) show ?thesis
    using fillConditionsMap_order [of a b d d1 d2] by simp
next
  case equal
  with assms(3,4) show ?thesis
    by (auto simp: definitionsConditions_def extractStringMap_def
        split: option.splits yaml.splits)
qed

lemma definitionsResponses_order:
  assumes "sameNamespace (map_of D ''responses'') (map_of D' ''responses'')"
    and "Definitions.Responses d = Map.empty"
    and "definitionsResponses D d = Inr d1" and "definitionsResponses D' d = Inr d2"
  shows "d1 = d2"
  using assms(1)
proof (cases rule: sameNamespace_cases)
  case (entries a b)
  with assms(3,4) have "fillResponsesMap a d = Inr d1" "fillResponsesMap b d = Inr d2"
    by (simp_all add: definitionsResponses_def extractStringMap_def)
  with entries(3) assms(2) show ?thesis
    using fillResponsesMap_order [of a b d d1 d2] by simp
next
  case equal
  with assms(3,4) show ?thesis
    by (auto simp: definitionsResponses_def extractStringMap_def
        split: option.splits yaml.splits)
qed

lemma definitionsSteps_fields:
  "definitionsSteps D d = Inr d' \<Longrightarrow>
   Definitions.Filters d' = Definitions.Filters d
   \<and> Definitions.Conditions d' = Definitions.Conditions d
   \<and> Definitions.Responses d' = Definitions.Responses d"
  by (auto simp: definitionsSteps_def dest: fillStepsMap_fields
      split: sum.splits option.splits)

lemma definitionsFilters_fields:
  "definitionsFilters D d = Inr d' \<Longrightarrow>
   Definitions.Conditions d' = Definitions.Conditions d
   \<and> Definitions.Responses d' = Definitions.Responses d"
  by (auto simp: definitionsFilters_def dest: fillFiltersMap_fields
      split: sum.splits option.splits)

lemma definitionsConditions_fields:
  "definitionsConditions D d = Inr d' \<Longrightarrow>
   Definitions.Responses d' = Definitions.Responses d"
  by (auto simp: definitionsConditions_def dest: fillConditionsMap_fields
      split: sum.splits option.splits)

lemma fillDefinitions_order:
  assumes same: "sameDefinitions D D'"
    and empty: "Definitions.Steps d = Map.empty" "Definitions.Filters d = Map.empty"
      "Definitions.Conditions d = Map.empty" "Definitions.Responses d = Map.empty"
    and run1: "fillDefinitions D d = Inr r1" and run2: "fillDefinitions D' d = Inr r2"
  shows "r1 = r2"
proof -
  from run1 obtain a b c where
    1: "definitionsSteps D d = Inr a" "definitionsFilters D a = Inr b"
      "definitionsConditions D b = Inr c" "definitionsResponses D c = Inr r1"
    by (auto simp: fillDefinitions_blocks split: sum.splits)
  from run2 obtain a' b' c' where
    2: "definitionsSteps D' d = Inr a'" "definitionsFilters D' a' = Inr b'"
      "definitionsConditions D' b' = Inr c'" "definitionsResponses D' c' = Inr r2"
    by (auto simp: fillDefinitions_blocks split: sum.splits)
  from same have s: "sameNamespace (map_of D ''steps'') (map_of D' ''steps'')"
    "sameNamespace (map_of D ''filters'') (map_of D' ''filters'')"
    "sameNamespace (map_of D ''conditions'') (map_of D' ''conditions'')"
    "sameNamespace (map_of D ''responses'') (map_of D' ''responses'')"
    by (simp_all add: sameDefinitions_def)
  have a: "a = a'" using s(1) empty(1) 1(1) 2(1) by (rule definitionsSteps_order)
  have "Definitions.Filters a = Map.empty"
    using definitionsSteps_fields [OF 1(1)] empty by simp
  with s(2) have b: "b = b'" using 1(2) 2(2) a by (auto intro: definitionsFilters_order)
  have "Definitions.Conditions b = Map.empty"
    using definitionsSteps_fields [OF 1(1)] definitionsFilters_fields [OF 1(2)] empty by simp
  with s(3) have c: "c = c'" using 1(3) 2(3) b by (auto intro: definitionsConditions_order)
  have "Definitions.Responses c = Map.empty"
    using definitionsSteps_fields [OF 1(1)] definitionsFilters_fields [OF 1(2)]
      definitionsConditions_fields [OF 1(3)] empty by simp
  with s(4) show ?thesis using 1(4) 2(4) c by (auto intro: definitionsResponses_order)
qed

lemma fillSpec_lookups:
  assumes "map_of m ''definitions'' = map_of m' ''definitions''"
    and "map_of m ''endpoints'' = map_of m' ''endpoints''"
  shows "fillSpec m spec = fillSpec m' spec"
proof -
  have 1: "extractStringMap m ''definitions'' = extractStringMap m' ''definitions''"
    using assms(1) by (simp add: extractStringMap_def)
  have 2: "extractSliceOfAny m ''endpoints'' = extractSliceOfAny m' ''endpoints''"
    using assms(2) by (simp add: extractSliceOfAny_def)
  show ?thesis unfolding fillSpec_def 1 2 by (rule refl)
qed

lemma fillSpec_definitions:
  "map_of m ''definitions'' = Some (YMap D) \<Longrightarrow>
   fillSpec m spec =
     (case fillDefinitions D (Spec.Definitions spec) of
        Inl err \<Rightarrow> Inl err
      | Inr definitions \<Rightarrow>
          specEndpoints (map_of m ''endpoints'') (spec\<lparr>Definitions := definitions\<rparr>))"
  by (simp add: fillSpec_def extractStringMap_def extractSliceOfAny_def specEndpoints_def
      split: sum.splits option.splits yaml.splits)

lemma sameRegistry_cases:
  assumes "sameRegistry x y"
  obtains (namespaces) D D' where "x = Some (YMap D)" "y = Some (YMap D')" "sameDefinitions D D'"
  | (equal) "x = y"
  using assms by (cases "(x, y)" rule: sameRegistry.cases) auto

text \<open>
  The claim says that two runs on a document return the same result. On a document whose
  step group \<^verbatim>\<open>clean\<close> refers to the group \<^verbatim>\<open>trim\<close> of the same namespace, the run that
  visits \<^verbatim>\<open>clean\<close> first fails with the unknown-definition error, and the run that visits
  \<^verbatim>\<open>trim\<close> first succeeds.
\<close>

theorem visiting_order_counterexample:
  "sameDocument forwardReference backwardReference
   \<and> Parse forwardReference = Inl (UnknownDefinition ''steps'' ''trim'')
   \<and> \<not> isl (Parse backwardReference)"
  by (simp add: forwardReference_def backwardReference_def sameDefinitions_def sameEntries_def
      Parse_def fillSpec_def fillDefinitions_def extractStringMap_def extractSliceOfAny_def
      fillStepsItems_def fillStepsItem_def createSteps_def extractString_def
      getStepsByReference_def errUnknownDefinitionWithName_def createEmpty_def insert_commute)

text \<open>
  C8, as amended. Two runs of \<^verbatim>\<open>Parse\<close> on one document that both succeed return the
  same \<^verbatim>\<open>Spec\<close>, the registry compared as four maps, whatever the order in which each
  run visits the entries of the namespaces of \<^verbatim>\<open>definitions\<close>. (Whether a run succeeds
  is not determined by the document, as the forward reference shows.)
\<close>

theorem successful_runs_agree:
  assumes "sameDocument rSpec rSpec'"
    and "Parse rSpec = Inr spec" and "Parse rSpec' = Inr spec'"
  shows "spec = spec'"
proof -
  from assms(2) obtain m where m: "rSpec = YMap m"
    by (cases rSpec) (simp_all add: Parse_def)
  from assms(3) obtain m' where m': "rSpec' = YMap m'"
    by (cases rSpec') (simp_all add: Parse_def)
  from assms(1) m m' have ends: "map_of m ''endpoints'' = map_of m' ''endpoints''"
    and reg: "sameRegistry (map_of m ''definitions'') (map_of m' ''definitions'')"
    by simp_all
  from assms(2,3) m m' have run: "fillSpec m createEmpty = Inr spec"
    and run': "fillSpec m' createEmpty = Inr spec'"
    by (simp_all add: Parse_def)
  from reg show ?thesis
  proof (cases rule: sameRegistry_cases)
    case (namespaces D D')
    from run namespaces(1) obtain definitions where
      d: "fillDefinitions D (Spec.Definitions createEmpty) = Inr definitions"
      and s: "specEndpoints (map_of m ''endpoints'') (createEmpty\<lparr>Definitions := definitions\<rparr>)
              = Inr spec"
      by (auto simp: fillSpec_definitions split: sum.splits)
    from run' namespaces(2) obtain definitions' where
      d': "fillDefinitions D' (Spec.Definitions createEmpty) = Inr definitions'"
      and s': "specEndpoints (map_of m' ''endpoints'')
                 (createEmpty\<lparr>Definitions := definitions'\<rparr>) = Inr spec'"
      by (auto simp: fillSpec_definitions split: sum.splits)
    have "definitions = definitions'"
      using namespaces(3) _ _ _ _ d d'
      by (rule fillDefinitions_order) (simp_all add: createEmpty_def)
    with s s' ends show ?thesis by simp
  next
    case equal
    from equal ends have "fillSpec m createEmpty = fillSpec m' createEmpty"
      by (rule fillSpec_lookups)
    with run run' show ?thesis by simp
  qed
qed

theorem successful_runs_agree_witness:
  "sameDocument twoSteps twoStepsSwapped
   \<and> \<not> isl (Parse twoSteps) \<and> \<not> isl (Parse twoStepsSwapped)
   \<and> Parse twoSteps = Parse twoStepsSwapped"
proof -
  have same: "sameDocument twoSteps twoStepsSwapped"
    by (simp add: twoSteps_def twoStepsSwapped_def sameDefinitions_def sameEntries_def
        insert_commute)
  have a: "Parse twoSteps =
       Inr (createEmpty\<lparr>Definitions := (Spec.Definitions createEmpty)\<lparr>Steps :=
              [''trim'' \<mapsto> [\<lparr>Operation = ''trim'', Step.Parameters = [(''value'', YNull)]\<rparr>],
               ''upper'' \<mapsto> [\<lparr>Operation = ''upper'', Step.Parameters = [(''value'', YNull)]\<rparr>]]\<rparr>\<rparr>)"
    by (simp add: twoSteps_def
      Parse_def fillSpec_def fillDefinitions_def extractStringMap_def extractSliceOfAny_def
      fillStepsItems_def fillStepsItem_def createSteps_def extractString_def createEmpty_def)
  have b: "Parse twoStepsSwapped =
       Inr (createEmpty\<lparr>Definitions := (Spec.Definitions createEmpty)\<lparr>Steps :=
              [''upper'' \<mapsto> [\<lparr>Operation = ''upper'', Step.Parameters = [(''value'', YNull)]\<rparr>],
               ''trim'' \<mapsto> [\<lparr>Operation = ''trim'', Step.Parameters = [(''value'', YNull)]\<rparr>]]\<rparr>\<rparr>)"
    by (simp add: twoStepsSwapped_def
      Parse_def fillSpec_def fillDefinitions_def extractStringMap_def extractSliceOfAny_def
      fillStepsItems_def fillStepsItem_def createSteps_def extractString_def createEmpty_def)
  from successful_runs_agree [OF same a b] same a b show ?thesis by simp
qed

section \<open>Step items\<close>

text \<open>
  C10. A step item that is an empty mapping passes the key count (zero is not more than
  one), has no \<^verbatim>\<open>$ref\<close>, and the loop over its entries runs zero times: the step builder
  returns no step and no error. The list \<^verbatim>\<open>[{}]\<close> is not empty, so a definition
  \<^verbatim>\<open>steps: {name: [{}]}\<close> is accepted and stores an empty step list under the name.
\<close>

theorem empty_step_item_yields_no_steps:
  "createSteps [] definitions = Inr []
   \<and> fillStepsItems [] [YMap []] definitions = Inr []
   \<and> fillStepsMap [(name, YSeq [YMap []])] definitions =
       Inr (definitions\<lparr>Steps := (Definitions.Steps definitions)(name \<mapsto> [])\<rparr>)
   \<and> (\<exists>spec. Parse (YMap [(''definitions'', YMap [(''steps'',
                   YMap [(name, YSeq [YMap []])])])]) = Inr spec
         \<and> Definitions.Steps (Spec.Definitions spec) name = Some []
         \<and> Spec.Endpoints spec = [])"
  by (simp add: createSteps_def extractString_def fillStepsItems_def fillStepsItem_def
      Parse_def fillSpec_def fillDefinitions_def extractStringMap_def extractSliceOfAny_def
      createEmpty_def)

end
